theory Spec2Isabelle
  imports Main "HOL-Library.Sublist"
begin

section \<open>Strings\<close>

text \<open>
  Python \<open>str\<close> values are modelled as HOL strings: a text is the list of its
  characters, and the model covers the characters with code point below 256.
\<close>

definition quote :: char where
  "quote = CHR 0x27"

text \<open>Python's \<open>sub in s\<close> on strings: \<open>sub\<close> occurs in \<open>s\<close> as a contiguous run.\<close>

fun str_in :: "string \<Rightarrow> string \<Rightarrow> bool" where
  "str_in sub [] = (sub = [])"
| "str_in sub (c # cs) = (prefix sub (c # cs) \<or> str_in sub cs)"

section \<open>Token substitution\<close>

text \<open>
  The pattern \<^verbatim>\<open>\$\{([^}]+)\}\<close> tried at the start of a text: a dollar sign, an opening
  brace, the longest run of characters other than the closing brace, which must not be
  empty, and the closing brace. The run cannot be shortened to make the match succeed,
  since every character of it differs from the closing brace. The result is group 1 and
  the text after the match.
\<close>

definition match_token :: "string \<Rightarrow> (string \<times> string) option" where
  "match_token s =
     (case s of
        a # b # r \<Rightarrow>
          if a = CHR ''$'' \<and> b = CHR ''{'' then
            (let name = takeWhile (\<lambda>c. c \<noteq> CHR ''}'') r;
                 rest = dropWhile (\<lambda>c. c \<noteq> CHR ''}'') r
             in if name \<noteq> [] \<and> rest \<noteq> [] then Some (name, tl rest) else None)
          else None
      | _ \<Rightarrow> None)"

lemma match_token_shorter:
  "match_token s = Some (name, rest) \<Longrightarrow> length rest < length s"
proof -
  assume m: "match_token s = Some (name, rest)"
  then obtain a b r where s: "s = a # b # r"
    by (cases s rule: list.exhaust; cases "tl s") (auto simp: match_token_def)
  from m s have "rest = tl (dropWhile (\<lambda>c. c \<noteq> CHR ''}'') r)"
    by (auto simp: match_token_def Let_def split: if_splits)
  moreover have "length (dropWhile (\<lambda>c. c \<noteq> CHR ''}'') r) \<le> length r"
    by (rule length_dropWhile_le)
  ultimately show ?thesis using s by simp
qed

text \<open>
  \<open>re.sub(pattern, repl, string)\<close> for the token pattern and a callable \<open>repl\<close>: the
  text is scanned from the left, each match found is replaced by what \<open>repl\<close> returns
  for it, the scan goes on after the match, and the replacement is not scanned again.
  The callable of the source appends to a list of its enclosing scope; that list is the
  state \<open>st\<close> passed through the calls.
\<close>

function re_sub ::
  "(string \<Rightarrow> 'st \<Rightarrow> string \<times> 'st) \<Rightarrow> string \<Rightarrow> 'st \<Rightarrow> string \<times> 'st" where
  "re_sub repl [] st = ([], st)"
| "re_sub repl (c # cs) st =
     (case match_token (c # cs) of
        Some (token, rest) \<Rightarrow>
          (let (r, st1) = repl token st;
               (out, st2) = re_sub repl rest st1
           in (r @ out, st2))
      | None \<Rightarrow>
          (let (out, st1) = re_sub repl cs st in (c # out, st1)))"
  by pat_completeness auto
termination
  by (relation "measure (\<lambda>(repl, s, st). length s)")
     (auto dest: match_token_shorter)

type_synonym environ = "string \<rightharpoonup> string"

definition placeholder :: "string \<Rightarrow> string" where
  "placeholder token = quote # ''__MISSING_'' @ token @ ''__'' @ [quote]"

text \<open>
  The nested function \<open>replacer\<close>: \<open>os.environ.get(token)\<close> is the lookup \<open>env token\<close>.
\<close>

definition replacer :: "environ \<Rightarrow> string \<Rightarrow> string list \<Rightarrow> string \<times> string list" where
  "replacer env token missing =
     (case env token of
        None \<Rightarrow> (placeholder token, missing @ [token])
      | Some v \<Rightarrow> (v, missing))"

definition substitute_tokens :: "environ \<Rightarrow> string \<Rightarrow> string \<times> string list" where
  "substitute_tokens env content = re_sub (replacer env) content []"


text \<open>\<open>re.search(pattern, s) is not None\<close>: the pattern matches somewhere in the text.\<close>

fun has_token :: "string \<Rightarrow> bool" where
  "has_token [] = False"
| "has_token (c # cs) = (match_token (c # cs) \<noteq> None \<or> has_token cs)"

section \<open>The world of the script\<close>

text \<open>
  The file system maps a path to what is there. \<open>os.path.exists(p)\<close> is \<open>fs p \<noteq> None\<close>.
  A \<open>File\<close> is a text file that can be opened and read, with its content; \<open>Unreadable\<close>
  is a path that exists and on which \<open>open\<close> or \<open>read\<close> raises (a directory, a file
  without read permission, a file that is not UTF-8). Removing the temporary file and
  writing the report are taken to succeed; creating and writing the temporary file
  and printing can fail, as described below.
\<close>

datatype fs_node = File string | Unreadable

type_synonym filesystem = "string \<rightharpoonup> fs_node"

text \<open>
  What \<open>subprocess.run\<close> does: it returns a completed process (exit status, captured
  standard output and standard error), or raises \<open>TimeoutExpired\<close>, or raises something
  else (the program is not installed, the output is not text).
\<close>

datatype outcome = Completed (returncode: int) (stdout: string) (stderr: string)
  | TimeoutExpired
  | RunError

text \<open>
  The external checker is a parameter: from the command line, the timeout in seconds
  and the file system to the outcome of \<open>subprocess.run\<close>. It leaves the file system as
  it is. \<open>tempfile.NamedTemporaryFile\<close> is a parameter as well: from the file system and
  the suffix asked for to the name of the file it creates.
\<close>

type_synonym runner = "string list \<Rightarrow> nat \<Rightarrow> filesystem \<Rightarrow> outcome"

type_synonym mkstemp = "filesystem \<Rightarrow> string \<Rightarrow> string"

text \<open>
  What creating the temporary file and \<open>tmp.write(substituted)\<close>, with the end of its
  \<open>with\<close> block, do with a text: the text is written; or the write raises (a character
  that UTF-8 cannot encode, no room on the device) and the file holds what was written
  before it; or \<open>NamedTemporaryFile\<close> raises and there is no file. This is a parameter
  too.
\<close>

datatype write_result = Written | WriteFailed string | NotCreated

type_synonym writer = "string \<Rightarrow> write_result"

text \<open>The exceptions that the script does not catch.\<close>

datatype error =
    InputError \<comment> \<open>\<open>open(filepath)\<close> or \<open>f.read()\<close> raised\<close>
  | TempWriteError \<comment> \<open>\<open>NamedTemporaryFile\<close>, \<open>tmp.write(substituted)\<close> or the end of its \<open>with\<close> block raised\<close>
  | SubprocessError \<comment> \<open>\<open>subprocess.run\<close> raised something other than \<open>TimeoutExpired\<close>\<close>
  | PrintError \<comment> \<open>\<open>print\<close> raised \<open>UnicodeEncodeError\<close>\<close>

section \<open>Validation\<close>

definition sqlfluff_command :: "string \<Rightarrow> string list" where
  "sqlfluff_command tmp_path =
     [''sqlfluff'', ''parse'', ''--dialect'', ''snowflake'', ''--disable-progress-bar'',
      ''--nofail'', tmp_path]"

text \<open>The local \<open>has_error\<close> of \<open>validate_file\<close>.\<close>

definition has_error :: "string \<Rightarrow> int \<Rightarrow> bool" where
  "has_error output rc =
     (str_in ''[UNPARSABLE]'' output \<or> str_in ''FATAL'' output \<or> \<not> (rc = 0 \<or> rc = 1))"

text \<open>
  \<open>validate_file\<close> returns the file system it leaves and either the exception it raises or
  the triple \<open>(passed, error_output, missing_tokens)\<close>. The temporary file is created
  with \<open>delete=False\<close> and written before the \<open>try\<close> block: when the write raises, the
  exception leaves \<open>validate_file\<close> and the file stays. The \<open>finally\<close> clause runs on
  every way out of the \<open>try\<close> block: there the temporary file is removed whatever
  \<open>result\<close> is.
\<close>

definition validate_file ::
  "runner \<Rightarrow> mkstemp \<Rightarrow> writer \<Rightarrow> environ \<Rightarrow> filesystem \<Rightarrow> string \<Rightarrow>
     filesystem \<times> (error + bool \<times> string \<times> string list)" where
  "validate_file run mk wr env fs filepath =
     (case fs filepath of
        Some (File content) \<Rightarrow>
          (let (substituted, missing_tokens) = substitute_tokens env content;
               tmp_path = mk fs ''.sql''
           in case wr substituted of
                NotCreated \<Rightarrow> (fs, Inl TempWriteError)
              | WriteFailed left \<Rightarrow> (fs(tmp_path \<mapsto> File left), Inl TempWriteError)
              | Written \<Rightarrow>
                  (let fs1 = fs(tmp_path \<mapsto> File substituted);
                       result =
                         (case run (sqlfluff_command tmp_path) 120 fs1 of
                            Completed rc out err \<Rightarrow>
                              (let output = out @ err
                               in Inr (\<not> has_error output rc, output, missing_tokens))
                          | TimeoutExpired \<Rightarrow>
                              Inr (False, ''Validation timed out after 120 seconds.'',
                                   missing_tokens)
                          | RunError \<Rightarrow> Inl SubprocessError)
                   in (fs1(tmp_path := None), result)))
      | _ \<Rightarrow> (fs, Inl InputError))"

section \<open>Main\<close>

text \<open>
  \<open>str.isspace\<close> on one character, for the code points below 256: the ASCII white space,
  the separators \<open>0x1c\<close> to \<open>0x1f\<close>, \<open>0x85\<close> and \<open>0xa0\<close>.
\<close>

definition py_isspace :: "char \<Rightarrow> bool" where
  "py_isspace c = (of_char c \<in> {9, 10, 11, 12, 13, 28, 29, 30, 31, 32, 133, 160 :: nat})"

text \<open>\<open>s.strip()\<close>\<close>

definition py_strip :: "string \<Rightarrow> string" where
  "py_strip s = rev (dropWhile py_isspace (rev (dropWhile py_isspace s)))"

text \<open>
  \<open>s.split()\<close>: the maximal runs of characters that are not white space, in order.
  \<open>cur\<close> is the run being read.
\<close>

fun split_from :: "string \<Rightarrow> string \<Rightarrow> string list" where
  "split_from cur [] = (if cur = [] then [] else [cur])"
| "split_from cur (c # cs) =
     (if py_isspace c then (if cur = [] then split_from [] cs else cur # split_from [] cs)
      else split_from (cur @ [c]) cs)"

definition py_split :: "string \<Rightarrow> string list" where
  "py_split s = split_from [] s"

text \<open>
  What the script prints, one constructor for each \<open>print\<close> (or group of them) of
  \<open>main\<close>; the console is the list of these messages, oldest first.
\<close>

datatype message =
    NoChangedFiles \<comment> \<open>No changed .snowsql files detected. Skipping validation.\<close>
  | NoSnowsqlFiles \<comment> \<open>No .snowsql files in changed set. Skipping.\<close>
  | Banner nat \<comment> \<open>the header, with the number of files to validate\<close>
  | Validating string
  | FileNotFound \<comment> \<open>File not found (possibly deleted in this commit). Skipping.\<close>
  | MissingEnvVars "string list" \<comment> \<open>Missing GitHub env vars for tokens\<close>
  | Passed
  | Failed string \<comment> \<open>FAILED, then the lines of the stripped output\<close>
  | ResultFailed nat nat "string list" \<comment> \<open>RESULT: k/n file(s) failed validation, and their names\<close>
  | ResultPassed nat \<comment> \<open>RESULT: All n file(s) passed.\<close>

text \<open>
  The world of a run: the environment variables, the file system, what has been
  printed, and which messages the encoding of standard output can encode.
\<close>

record world =
  environ :: environ
  fs :: filesystem
  console :: "message list"
  stdout_encodes :: "message \<Rightarrow> bool"

text \<open>
  The two messages of the early exits are ASCII text, which every encoding of standard
  output encodes. All the others have characters outside ASCII in the source (the
  rules of the banner and of the result, the marks before the progress lines).
\<close>

fun ascii_message :: "message \<Rightarrow> bool" where
  "ascii_message NoChangedFiles = True"
| "ascii_message NoSnowsqlFiles = True"
| "ascii_message m = False"

text \<open>
  \<open>print\<close>: the message goes to the console, or \<open>UnicodeEncodeError\<close> is raised when
  standard output cannot encode it. A message is on the console when all its lines
  were written.
\<close>

definition py_print :: "message \<Rightarrow> world \<Rightarrow> error + world" where
  "py_print m w =
     (if ascii_message m \<or> stdout_encodes w m then Inr (w\<lparr>console := console w @ [m]\<rparr>)
      else Inl PrintError)"

text \<open>How the process ends: \<open>sys.exit(n)\<close>, or an exception that nothing catches.\<close>

datatype ending = SysExit int | Uncaught error

text \<open>
  The exit status of the process: the argument of \<open>sys.exit\<close>, and 1 when an
  exception is not caught (the interpreter prints the traceback and exits with 1).
\<close>

fun exit_status :: "ending \<Rightarrow> int" where
  "exit_status (SysExit n) = n"
| "exit_status (Uncaught e) = 1"

definition ERROR_LOG :: string where
  "ERROR_LOG = ''/tmp/snowsql_errors.txt''"

definition newline :: char where
  "newline = CHR 0x0A"

text \<open>
  The text written to \<open>ERROR_LOG\<close>; an entry of \<open>all_errors\<close> is the pair of its
  \<open>file\<close> and its \<open>output\<close>.
\<close>

definition report :: "(string \<times> string) list \<Rightarrow> string" where
  "report all_errors =
     concat (map (\<lambda>(file, output).
        ''File: '' @ file @ [newline] @
        replicate 60 (CHR ''-'') @ [newline] @
        output @ [newline, newline]) all_errors)"

text \<open>
  The loop \<open>for filepath in files\<close>, with the lists \<open>all_errors\<close> and \<open>failed_files\<close> it
  appends to. An exception of \<open>print\<close> or of \<open>validate_file\<close> ends the loop.
\<close>

fun main_loop ::
  "runner \<Rightarrow> mkstemp \<Rightarrow> writer \<Rightarrow> string list \<Rightarrow> world \<Rightarrow> (string \<times> string) list \<Rightarrow>
     string list \<Rightarrow> world \<times> (error + (string \<times> string) list \<times> string list)" where
  "main_loop run mk wr [] w all_errors failed_files = (w, Inr (all_errors, failed_files))"
| "main_loop run mk wr (filepath # files) w all_errors failed_files =
     (case py_print (Validating filepath) w of
        Inl e \<Rightarrow> (w, Inl e)
      | Inr w1 \<Rightarrow>
          if fs w1 filepath = None then
            (case py_print FileNotFound w1 of
               Inl e \<Rightarrow> (w1, Inl e)
             | Inr w2 \<Rightarrow> main_loop run mk wr files w2 all_errors failed_files)
          else
            (case validate_file run mk wr (environ w1) (fs w1) filepath of
               (fs2, Inl e) \<Rightarrow> (w1\<lparr>fs := fs2\<rparr>, Inl e)
             | (fs2, Inr (passed, output, missing_tokens)) \<Rightarrow>
                 (case (if missing_tokens \<noteq> []
                        then py_print (MissingEnvVars missing_tokens) (w1\<lparr>fs := fs2\<rparr>)
                        else Inr (w1\<lparr>fs := fs2\<rparr>)) of
                    Inl e \<Rightarrow> (w1\<lparr>fs := fs2\<rparr>, Inl e)
                  | Inr w3 \<Rightarrow>
                      if passed then
                        (case py_print Passed w3 of
                           Inl e \<Rightarrow> (w3, Inl e)
                         | Inr w4 \<Rightarrow> main_loop run mk wr files w4 all_errors failed_files)
                      else
                        (case py_print (Failed (py_strip output)) w3 of
                           Inl e \<Rightarrow> (w3, Inl e)
                         | Inr w4 \<Rightarrow>
                             main_loop run mk wr files w4
                               (all_errors @ [(filepath, py_strip output)])
                               (failed_files @ [filepath])))))"

text \<open>The end of a run whose last \<open>print\<close> is followed by \<open>sys.exit(n)\<close>.\<close>

definition print_and_exit :: "message \<Rightarrow> int \<Rightarrow> world \<Rightarrow> world \<times> ending" where
  "print_and_exit m n w =
     (case py_print m w of Inl e \<Rightarrow> (w, Uncaught e) | Inr w1 \<Rightarrow> (w1, SysExit n))"

definition main :: "runner \<Rightarrow> mkstemp \<Rightarrow> writer \<Rightarrow> world \<Rightarrow> world \<times> ending" where
  "main run mk wr w =
     (let files_env = py_strip (case environ w ''CHANGED_FILES'' of None \<Rightarrow> [] | Some v \<Rightarrow> v) in
      if files_env = [] then print_and_exit NoChangedFiles 0 w
      else
        (let files = filter (\<lambda>f. suffix ''.snowsql'' f) (py_split files_env) in
         if files = [] then print_and_exit NoSnowsqlFiles 0 w
         else
           (case py_print (Banner (length files)) w of
              Inl e \<Rightarrow> (w, Uncaught e)
            | Inr w0 \<Rightarrow>
                (case main_loop run mk wr files w0 [] [] of
                   (w1, Inl e) \<Rightarrow> (w1, Uncaught e)
                 | (w1, Inr (all_errors, failed_files)) \<Rightarrow>
                     (let w2 = (if all_errors \<noteq> []
                                then w1\<lparr>fs := (fs w1)(ERROR_LOG \<mapsto> File (report all_errors))\<rparr>
                                else w1)
                      in if failed_files \<noteq> [] then
                           print_and_exit
                             (ResultFailed (length failed_files) (length files) failed_files) 1 w2
                         else print_and_exit (ResultPassed (length files)) 0 w2)))))"


section \<open>Notions of the specification\<close>

text \<open>
  The definitions of this section are not functions of the script: they say what the
  specification talks about, and the theorems relate the script to them.
\<close>

subsection \<open>Quoted literals of the target grammar\<close>

text \<open>
  A string constant of the SQL dialect: an opening quote, a body and a closing quote,
  with nothing after it. In the body a quote is written as two quotes, and a
  backslash takes the character after it along. \<open>literal_body\<close> reads what follows the
  opening quote.
\<close>

definition backslash :: char where
  "backslash = CHR 0x5C"

fun literal_body :: "string \<Rightarrow> bool" where
  "literal_body [] = False"
| "literal_body (c # cs) =
     (if c = quote then (case cs of [] \<Rightarrow> True | d # ds \<Rightarrow> d = quote \<and> literal_body ds)
      else if c = backslash then (case cs of [] \<Rightarrow> False | d # ds \<Rightarrow> literal_body ds)
      else literal_body cs)"

definition quoted_literal :: "string \<Rightarrow> bool" where
  "quoted_literal s = (case s of [] \<Rightarrow> False | c # cs \<Rightarrow> c = quote \<and> literal_body cs)"

subsection \<open>Texts with token references\<close>

text \<open>
  A template is a list of token references, each with the literal text that stands
  before it. \<open>spec_render ps tail\<close> is the source text of the template \<open>ps\<close> followed by
  \<open>tail\<close>; \<open>spec_expand env ps\<close> is the text with every reference replaced by the value of
  its name, or by the placeholder when the environment has no value;
  \<open>spec_missing env ps\<close> lists the names without a value, in the order of the text, once
  for each occurrence. A template is well formed when no literal text contains \<open>${\<close>
  and every name is not empty and has no closing brace.
\<close>

type_synonym template = "(string \<times> string) list"

fun spec_render :: "template \<Rightarrow> string \<Rightarrow> string" where
  "spec_render [] tail = tail"
| "spec_render ((lit, name) # ps) tail = lit @ ''${'' @ name @ ''}'' @ spec_render ps tail"

definition spec_value :: "environ \<Rightarrow> string \<Rightarrow> string" where
  "spec_value env name = (case env name of Some v \<Rightarrow> v | None \<Rightarrow> placeholder name)"

fun spec_expand :: "environ \<Rightarrow> template \<Rightarrow> string" where
  "spec_expand env [] = []"
| "spec_expand env ((lit, name) # ps) = lit @ spec_value env name @ spec_expand env ps"

definition spec_missing :: "environ \<Rightarrow> template \<Rightarrow> string list" where
  "spec_missing env ps = filter (\<lambda>name. env name = None) (map snd ps)"

definition well_formed :: "template \<Rightarrow> bool" where
  "well_formed ps =
     list_all (\<lambda>(lit, name). \<not> str_in ''${'' lit \<and> name \<noteq> [] \<and> CHR ''}'' \<notin> set name) ps"

subsection \<open>Candidate files and their validation\<close>

text \<open>
  The candidate files of a run: the entries of the list in \<open>CHANGED_FILES\<close>, separated
  by white space, that have the extension \<open>.snowsql\<close>.
\<close>

definition candidate_files :: "world \<Rightarrow> string list" where
  "candidate_files w =
     filter (\<lambda>f. suffix ''.snowsql'' f)
       (py_split (py_strip (case environ w ''CHANGED_FILES'' of None \<Rightarrow> [] | Some v \<Rightarrow> v)))"

text \<open>What \<open>validate_file\<close> raises or returns for a path, in a given world.\<close>

definition file_result ::
  "runner \<Rightarrow> mkstemp \<Rightarrow> writer \<Rightarrow> world \<Rightarrow> string \<Rightarrow>
     error + bool \<times> string \<times> string list" where
  "file_result run mk wr w p = snd (validate_file run mk wr (environ w) (fs w) p)"

text \<open>A file is validated and fails: it exists and \<open>validate_file\<close> returns \<open>passed = False\<close>.\<close>

definition fails :: "runner \<Rightarrow> mkstemp \<Rightarrow> writer \<Rightarrow> world \<Rightarrow> string \<Rightarrow> bool" where
  "fails run mk wr w p =
     (fs w p \<noteq> None \<and>
      (case file_result run mk wr w p of Inr (passed, output, missing) \<Rightarrow> \<not> passed | Inl e \<Rightarrow> False))"

text \<open>A file is validated and passes.\<close>

definition passes :: "runner \<Rightarrow> mkstemp \<Rightarrow> writer \<Rightarrow> world \<Rightarrow> string \<Rightarrow> bool" where
  "passes run mk wr w p =
     (fs w p \<noteq> None \<and>
      (case file_result run mk wr w p of Inr (passed, output, missing) \<Rightarrow> passed | Inl e \<Rightarrow> False))"

text \<open>The validation of a file raises an exception.\<close>

definition raises :: "runner \<Rightarrow> mkstemp \<Rightarrow> writer \<Rightarrow> world \<Rightarrow> string \<Rightarrow> bool" where
  "raises run mk wr w p =
     (fs w p \<noteq> None \<and> (case file_result run mk wr w p of Inr r \<Rightarrow> False | Inl e \<Rightarrow> True))"

text \<open>Standard output can encode every message of the script.\<close>

definition prints_all :: "world \<Rightarrow> bool" where
  "prints_all w = (\<forall>m. stdout_encodes w m)"

text \<open>Two worlds that differ in the console only.\<close>

definition same_but_console :: "world \<Rightarrow> world \<Rightarrow> bool" where
  "same_but_console w w0 \<longleftrightarrow>
     fs w = fs w0 \<and> environ w = environ w0 \<and> stdout_encodes w = stdout_encodes w0"

section \<open>Properties of the substitution\<close>

lemma match_token_iff:
  "match_token s = Some (name, rest) \<longleftrightarrow>
     s = ''${'' @ name @ ''}'' @ rest \<and> name \<noteq> [] \<and> CHR ''}'' \<notin> set name"
proof
  assume m: "match_token s = Some (name, rest)"
  then obtain a b r where s: "s = a # b # r"
    by (cases s rule: list.exhaust; cases "tl s") (auto simp: match_token_def)
  let ?P = "\<lambda>c. c \<noteq> CHR ''}''"
  from m s have ab: "a = CHR ''$''" "b = CHR ''{''"
    and n: "name = takeWhile ?P r" "name \<noteq> []"
    and d: "dropWhile ?P r \<noteq> []" "rest = tl (dropWhile ?P r)"
    by (auto simp: match_token_def Let_def split: if_splits)
  from d(1) have "hd (dropWhile ?P r) = CHR ''}''"
    using hd_dropWhile [of ?P r] by simp
  with d have "dropWhile ?P r = CHR ''}'' # rest"
    by (cases "dropWhile ?P r") auto
  then have "r = name @ CHR ''}'' # rest"
    using takeWhile_dropWhile_id [of ?P r] n(1) by simp
  moreover have "CHR ''}'' \<notin> set name"
    using n(1) set_takeWhileD [of "CHR ''}''" ?P r] by auto
  ultimately show "s = ''${'' @ name @ ''}'' @ rest \<and> name \<noteq> [] \<and> CHR ''}'' \<notin> set name"
    using s ab n(2) by simp
next
  assume a: "s = ''${'' @ name @ ''}'' @ rest \<and> name \<noteq> [] \<and> CHR ''}'' \<notin> set name"
  let ?P = "\<lambda>c. c \<noteq> CHR ''}''"
  from a have all: "\<And>x. x \<in> set name \<Longrightarrow> ?P x" by auto
  have "takeWhile ?P (name @ CHR ''}'' # rest) = name"
    using takeWhile_append2 [of name ?P "CHR ''}'' # rest"] all by simp
  moreover have "dropWhile ?P (name @ CHR ''}'' # rest) = CHR ''}'' # rest"
    using dropWhile_append2 [of name ?P "CHR ''}'' # rest"] all by simp
  ultimately show "match_token s = Some (name, rest)"
    using a by (simp add: match_token_def)
qed

lemma has_token_iff:
  "has_token s \<longleftrightarrow>
     (\<exists>pre name post. s = pre @ ''${'' @ name @ ''}'' @ post \<and> name \<noteq> [] \<and> CHR ''}'' \<notin> set name)"
proof (induction s)
  case Nil
  then show ?case by simp
next
  case (Cons c cs)
  show ?case
  proof
    assume "has_token (c # cs)"
    then consider (here) "match_token (c # cs) \<noteq> None" | (later) "has_token cs" by auto
    then show "\<exists>pre name post. c # cs = pre @ ''${'' @ name @ ''}'' @ post \<and> name \<noteq> [] \<and> CHR ''}'' \<notin> set name"
    proof cases
      case here
      then obtain name rest where "match_token (c # cs) = Some (name, rest)" by auto
      then have "c # cs = [] @ ''${'' @ name @ ''}'' @ rest \<and> name \<noteq> [] \<and> CHR ''}'' \<notin> set name"
        by (simp add: match_token_iff)
      then show ?thesis by blast
    next
      case later
      with Cons.IH obtain pre name post where
        "cs = pre @ ''${'' @ name @ ''}'' @ post \<and> name \<noteq> [] \<and> CHR ''}'' \<notin> set name" by blast
      then have "c # cs = (c # pre) @ ''${'' @ name @ ''}'' @ post \<and> name \<noteq> [] \<and> CHR ''}'' \<notin> set name"
        by simp
      then show ?thesis by blast
    qed
  next
    assume "\<exists>pre name post. c # cs = pre @ ''${'' @ name @ ''}'' @ post \<and> name \<noteq> [] \<and> CHR ''}'' \<notin> set name"
    then obtain pre name post where
      e: "c # cs = pre @ ''${'' @ name @ ''}'' @ post" and n: "name \<noteq> []" "CHR ''}'' \<notin> set name"
      by blast
    show "has_token (c # cs)"
    proof (cases pre)
      case Nil
      with e n have "match_token (c # cs) = Some (name, post)"
        by (simp add: match_token_iff)
      then show ?thesis by simp
    next
      case (Cons p ps)
      with e have "cs = ps @ ''${'' @ name @ ''}'' @ post" by simp
      with n Cons.IH have "has_token cs" by blast
      then show ?thesis by simp
    qed
  qed
qed

lemma re_sub_no_match:
  "match_token (c # cs) = None \<Longrightarrow>
     re_sub repl (c # cs) st = (c # fst (re_sub repl cs st), snd (re_sub repl cs st))"
  by (simp add: case_prod_beta)

lemma re_sub_match:
  "match_token (c # cs) = Some (token, rest) \<Longrightarrow>
     re_sub repl (c # cs) st =
       (fst (repl token st) @ fst (re_sub repl rest (snd (repl token st))),
        snd (re_sub repl rest (snd (repl token st))))"
  by (simp add: case_prod_beta)

lemma re_sub_no_token:
  "\<not> has_token s \<Longrightarrow> re_sub repl s st = (s, st)"
proof (induction s)
  case Nil
  then show ?case by simp
next
  case (Cons c cs)
  from Cons.prems have "match_token (c # cs) = None"
    by (cases "match_token (c # cs)") auto
  moreover from Cons have "re_sub repl cs st = (cs, st)" by simp
  ultimately show ?case using re_sub_no_match [of c cs repl st] by simp
qed

declare re_sub.simps [simp del]

lemma re_sub_Nil: "re_sub repl [] st = ([], st)"
  by (simp add: re_sub.simps)

lemma re_sub_replacer_acc:
  "re_sub (replacer env) s m =
     (fst (re_sub (replacer env) s []), m @ snd (re_sub (replacer env) s []))"
proof (induction s arbitrary: m rule: length_induct)
  case (1 s)
  show ?case
  proof (cases s)
    case Nil
    then show ?thesis by (simp add: re_sub_Nil)
  next
    case (Cons c cs)
    show ?thesis
    proof (cases "match_token (c # cs)")
      case None
      have "length cs < length s" using Cons by simp
      with 1 have ih: "re_sub (replacer env) cs m =
         (fst (re_sub (replacer env) cs []), m @ snd (re_sub (replacer env) cs []))"
        by blast
      show ?thesis
        unfolding Cons re_sub_no_match [OF None] using ih by simp
    next
      case (Some a)
      obtain token rest where a: "a = (token, rest)" by (cases a)
      with Some have m: "match_token (c # cs) = Some (token, rest)" by simp
      then have "length rest < length s" using Cons match_token_shorter by blast
      with 1 have ih: "\<And>k. re_sub (replacer env) rest k =
         (fst (re_sub (replacer env) rest []), k @ snd (re_sub (replacer env) rest []))"
        by blast
      show ?thesis
        unfolding Cons re_sub_match [OF m]
        using ih [of "snd (replacer env token m)"] ih [of "snd (replacer env token [])"]
        by (simp add: replacer_def split: option.splits)
    qed
  qed
qed

lemma no_match_in_literal:
  assumes "\<not> str_in ''${'' (c # cs)"
  shows "match_token (c # cs @ CHR ''$'' # rest) = None"
proof (cases "match_token (c # cs @ CHR ''$'' # rest)")
  case None
  then show ?thesis .
next
  case (Some a)
  then have "c = CHR ''$''" and "hd (cs @ CHR ''$'' # rest) = CHR ''{''"
    by (auto simp: match_token_def split: list.splits if_splits)
  with assms show ?thesis by (cases cs) auto
qed

lemma re_sub_literal:
  assumes "\<not> str_in ''${'' lit"
  shows "re_sub repl (lit @ CHR ''$'' # rest) st =
           (lit @ fst (re_sub repl (CHR ''$'' # rest) st), snd (re_sub repl (CHR ''$'' # rest) st))"
  using assms
proof (induction lit)
  case Nil
  then show ?case by simp
next
  case (Cons c cs)
  then have "\<not> str_in ''${'' cs" by simp
  with Cons.IH have ih: "re_sub repl (cs @ CHR ''$'' # rest) st =
     (cs @ fst (re_sub repl (CHR ''$'' # rest) st), snd (re_sub repl (CHR ''$'' # rest) st))"
    by simp
  from no_match_in_literal [OF Cons.prems]
  have "match_token (c # cs @ CHR ''$'' # rest) = None" .
  from re_sub_no_match [OF this, of repl st] ih show ?case by simp
qed

lemma re_sub_reference:
  assumes "\<not> str_in ''${'' lit" "name \<noteq> []" "CHR ''}'' \<notin> set name"
  shows "re_sub repl (lit @ ''${'' @ name @ ''}'' @ post) st =
           (lit @ fst (repl name st) @ fst (re_sub repl post (snd (repl name st))),
            snd (re_sub repl post (snd (repl name st))))"
proof -
  have "match_token (CHR ''$'' # ''{'' @ name @ ''}'' @ post) = Some (name, post)"
    using assms(2,3) by (simp add: match_token_iff)
  from re_sub_match [OF this, of repl st] re_sub_literal [OF assms(1), of repl "''{'' @ name @ ''}'' @ post" st]
  show ?thesis by simp
qed

lemma substitute_tokens_reference:
  assumes "\<not> str_in ''${'' lit" "name \<noteq> []" "CHR ''}'' \<notin> set name"
  shows "substitute_tokens env (lit @ ''${'' @ name @ ''}'' @ post) =
           (lit @ spec_value env name @ fst (substitute_tokens env post),
            (case env name of None \<Rightarrow> [name] | Some v \<Rightarrow> []) @ snd (substitute_tokens env post))"
  unfolding substitute_tokens_def re_sub_reference [OF assms]
  using re_sub_replacer_acc [of env post "snd (replacer env name [])"]
  by (simp add: replacer_def spec_value_def split: option.splits)

lemma substitute_tokens_template:
  "well_formed ps \<Longrightarrow>
     substitute_tokens env (spec_render ps tail) =
       (spec_expand env ps @ fst (substitute_tokens env tail),
        spec_missing env ps @ snd (substitute_tokens env tail))"
proof (induction ps)
  case Nil
  then show ?case by (simp add: spec_missing_def)
next
  case (Cons p ps)
  obtain lit name where p: "p = (lit, name)" by (cases p)
  from Cons.prems p have wf: "\<not> str_in ''${'' lit" "name \<noteq> []" "CHR ''}'' \<notin> set name"
    and "well_formed ps" by (simp_all add: well_formed_def)
  with Cons.IH have ih: "substitute_tokens env (spec_render ps tail) =
       (spec_expand env ps @ fst (substitute_tokens env tail),
        spec_missing env ps @ snd (substitute_tokens env tail))" by simp
  show ?case
    unfolding p spec_render.simps substitute_tokens_reference [OF wf] ih
    by (simp add: spec_missing_def split: option.splits)
qed

lemma missing_only_absent:
  "name \<in> set (snd (re_sub (replacer env) s m)) \<Longrightarrow> name \<in> set m \<or> (env name = None \<and> name \<noteq> [])"
proof (induction s arbitrary: m rule: length_induct)
  case (1 s)
  show ?case
  proof (cases s)
    case Nil
    with 1 show ?thesis by (simp add: re_sub_Nil)
  next
    case (Cons c cs)
    show ?thesis
    proof (cases "match_token (c # cs)")
      case None
      have "length cs < length s" using Cons by simp
      moreover from 1(2) have "name \<in> set (snd (re_sub (replacer env) cs m))"
        unfolding Cons re_sub_no_match [OF None] by simp
      ultimately show ?thesis using 1(1) by blast
    next
      case (Some a)
      obtain token rest where a: "a = (token, rest)" by (cases a)
      with Some have m: "match_token (c # cs) = Some (token, rest)" by simp
      then have l: "length rest < length s" using Cons match_token_shorter by blast
      from m have tok: "token \<noteq> []" by (simp add: match_token_iff)
      from 1(2) have "name \<in> set (snd (re_sub (replacer env) rest (snd (replacer env token m))))"
        unfolding Cons re_sub_match [OF m] by simp
      with 1(1) l have "name \<in> set (snd (replacer env token m)) \<or> (env name = None \<and> name \<noteq> [])"
        by blast
      then show ?thesis using tok by (auto simp: replacer_def split: option.splits)
    qed
  qed
qed


lemma literal_body_closing:
  "quote \<notin> set xs \<Longrightarrow> literal_body (xs @ [CHR ''_'', quote])"
proof (induction xs rule: length_induct)
  case (1 xs)
  show ?case
  proof (cases xs)
    case Nil
    then show ?thesis by (simp add: quote_def backslash_def)
  next
    case (Cons c cs)
    with 1(2) have c: "c \<noteq> quote" and cs: "quote \<notin> set cs" by auto
    show ?thesis
    proof (cases "c = backslash")
      case False
      from 1(1) cs Cons have "literal_body (cs @ [CHR ''_'', quote])" by simp
      with c False Cons show ?thesis by simp
    next
      case True
      show ?thesis
      proof (cases cs)
        case Nil
        with True c Cons show ?thesis by (simp add: quote_def backslash_def)
      next
        case (Cons d ds)
        with cs have "quote \<notin> set ds" by simp
        moreover have "length ds < length xs" using Cons \<open>xs = c # cs\<close> by simp
        ultimately have "literal_body (ds @ [CHR ''_'', quote])" using 1(1) by blast
        with True c Cons \<open>xs = c # cs\<close> show ?thesis by simp
      qed
    qed
  qed
qed

lemma placeholder_quoted_literal:
  assumes "quote \<notin> set name"
  shows "quoted_literal (placeholder name)"
proof -
  have "quote \<notin> set (''__MISSING_'' @ name @ ''_'')"
    using assms by (simp add: quote_def)
  from literal_body_closing [OF this] show ?thesis
    by (simp add: quoted_literal_def placeholder_def)
qed

text \<open>
  References to names that the environment does not define: each is replaced by the
  placeholder of its name and adds the name to the list of missing tokens, so the list
  has the undefined names in the order of the text, once for each occurrence; and the
  placeholder of a name without a quote character is a quoted literal.
\<close>

lemma substitute_tokens_absent:
  assumes "env name = None"
  shows "(well_formed ps \<and> \<not> str_in ''${'' lit \<and> name \<noteq> [] \<and> CHR ''}'' \<notin> set name \<longrightarrow>
      substitute_tokens env (spec_render ps (lit @ ''${'' @ name @ ''}'' @ post)) =
        (spec_expand env ps @ lit @ placeholder name @ fst (substitute_tokens env post),
         spec_missing env ps @ [name] @ snd (substitute_tokens env post))) \<and>
    (well_formed ps \<and> \<not> has_token tail \<longrightarrow>
      snd (substitute_tokens env (spec_render ps tail)) =
        filter (\<lambda>n. env n = None) (map snd ps)) \<and>
    (quote \<notin> set name \<longrightarrow> quoted_literal (placeholder name))"
proof (intro conjI impI)
  assume h: "well_formed ps \<and> \<not> str_in ''${'' lit \<and> name \<noteq> [] \<and> CHR ''}'' \<notin> set name"
  then have r: "substitute_tokens env (lit @ ''${'' @ name @ ''}'' @ post) =
      (lit @ placeholder name @ fst (substitute_tokens env post),
       name # snd (substitute_tokens env post))"
    using substitute_tokens_reference [of lit name env post] assms
    by (simp add: spec_value_def)
  from h have "well_formed ps" by simp
  from substitute_tokens_template [OF this, of env "lit @ ''${'' @ name @ ''}'' @ post"] r
  show "substitute_tokens env (spec_render ps (lit @ ''${'' @ name @ ''}'' @ post)) =
      (spec_expand env ps @ lit @ placeholder name @ fst (substitute_tokens env post),
       spec_missing env ps @ [name] @ snd (substitute_tokens env post))"
    by simp
next
  assume h: "well_formed ps \<and> \<not> has_token tail"
  then have "substitute_tokens env tail = (tail, [])"
    by (simp add: substitute_tokens_def re_sub_no_token)
  moreover from h have "well_formed ps" by simp
  ultimately show "snd (substitute_tokens env (spec_render ps tail)) =
      filter (\<lambda>n. env n = None) (map snd ps)"
    using substitute_tokens_template [of ps env tail] by (simp add: spec_missing_def)
next
  assume "quote \<notin> set name"
  then show "quoted_literal (placeholder name)" by (rule placeholder_quoted_literal)
qed

section \<open>Properties of the validation\<close>

lemma validate_file_written:
  assumes "disk filepath = Some (File content)"
    and "wr (fst (substitute_tokens env content)) = Written"
  shows "validate_file run mk wr env disk filepath =
    (disk(mk disk ''.sql'' := None),
     case run (sqlfluff_command (mk disk ''.sql'')) 120
            (disk(mk disk ''.sql'' \<mapsto> File (fst (substitute_tokens env content)))) of
       Completed rc out err \<Rightarrow>
         Inr (\<not> has_error (out @ err) rc, out @ err, snd (substitute_tokens env content))
     | TimeoutExpired \<Rightarrow>
         Inr (False, ''Validation timed out after 120 seconds.'', snd (substitute_tokens env content))
     | RunError \<Rightarrow> Inl SubprocessError)"
  using assms
  by (simp add: validate_file_def case_prod_beta Let_def split: outcome.splits)

lemma validate_file_write_failed:
  assumes "disk filepath = Some (File content)"
    and "wr (fst (substitute_tokens env content)) = WriteFailed left"
  shows "validate_file run mk wr env disk filepath =
    (disk(mk disk ''.sql'' \<mapsto> File left), Inl TempWriteError)"
  using assms
  by (simp add: validate_file_def case_prod_beta Let_def)

lemma validate_file_unreadable:
  assumes "\<And>content. disk filepath \<noteq> Some (File content)"
  shows "validate_file run mk wr env disk filepath = (disk, Inl InputError)"
  using assms
  by (auto simp: validate_file_def split: option.splits fs_node.splits)

lemma validate_file_returns:
  assumes "snd (validate_file run mk wr env disk filepath) = Inr r"
  shows "fst (validate_file run mk wr env disk filepath) = disk(mk disk ''.sql'' := None)"
  using assms
  by (auto simp: validate_file_def case_prod_beta Let_def
      split: option.splits fs_node.splits write_result.splits)

lemma validate_file_fresh:
  assumes "mk disk ''.sql'' \<notin> dom disk"
    and "snd (validate_file run mk wr env disk filepath) = Inr r"
  shows "fst (validate_file run mk wr env disk filepath) = disk"
proof -
  from assms(1) have "disk(mk disk ''.sql'' := None) = disk" by (auto simp: fun_upd_idem_iff)
  with validate_file_returns [OF assms(2)] show ?thesis by simp
qed

lemma validate_file_removes_tmp:
  assumes "disk filepath = Some (File content)"
    and "wr (fst (substitute_tokens env content)) = Written"
  shows "mk disk ''.sql'' \<notin> dom (fst (validate_file run mk wr env disk filepath)) \<and>
      (\<forall>p. p \<noteq> mk disk ''.sql'' \<longrightarrow> fst (validate_file run mk wr env disk filepath) p = disk p)"
  using assms by (simp add: validate_file_written)

lemma py_print_Inr:
  assumes "py_print m w = Inr w'"
  shows "w' = w\<lparr>console := console w @ [m]\<rparr>" "ascii_message m \<or> stdout_encodes w m"
  using assms by (auto simp: py_print_def split: if_splits)

lemma py_print_Inl:
  assumes "py_print m w = Inl e"
  shows "e = PrintError" "\<not> stdout_encodes w m"
  using assms by (auto simp: py_print_def split: if_splits)

lemma py_print_ok:
  assumes "ascii_message m \<or> stdout_encodes w m"
  shows "py_print m w = Inr (w\<lparr>console := console w @ [m]\<rparr>)"
  using assms by (auto simp: py_print_def)

lemma main_loop_absent:
  assumes "fs w p = None" "stdout_encodes w (Validating p)" "stdout_encodes w FileNotFound"
  shows "main_loop run mk wr (p # files) w all_errors failed_files =
       main_loop run mk wr files (w\<lparr>console := console w @ [Validating p, FileNotFound]\<rparr>)
         all_errors failed_files"
  using assms by (simp add: py_print_def)


lemma loop_print_raised:
  assumes "py_print (Validating p) w = Inl e"
  shows "main_loop run mk wr (p # files) w all_errors failed_files = (w, Inl e)"
  using assms by simp

lemma loop_absent_raised:
  assumes "py_print (Validating p) w = Inr w1" "fs w1 p = None"
    and "py_print FileNotFound w1 = Inl e"
  shows "main_loop run mk wr (p # files) w all_errors failed_files = (w1, Inl e)"
  using assms by simp

lemma loop_absent_next:
  assumes "py_print (Validating p) w = Inr w1" "fs w1 p = None"
    and "py_print FileNotFound w1 = Inr w2"
  shows "main_loop run mk wr (p # files) w all_errors failed_files =
           main_loop run mk wr files w2 all_errors failed_files"
  using assms by simp

lemma loop_validate_raised:
  assumes "py_print (Validating p) w = Inr w1" "fs w1 p = Some node"
    and "validate_file run mk wr (environ w1) (fs w1) p = (fs2, Inl e)"
  shows "main_loop run mk wr (p # files) w all_errors failed_files = (w1\<lparr>fs := fs2\<rparr>, Inl e)"
  using assms by simp

lemma loop_missing_raised:
  assumes "py_print (Validating p) w = Inr w1" "fs w1 p = Some node"
    and "validate_file run mk wr (environ w1) (fs w1) p = (fs2, Inr (passed, outp, missing))"
    and "(if missing \<noteq> [] then py_print (MissingEnvVars missing) (w1\<lparr>fs := fs2\<rparr>)
          else Inr (w1\<lparr>fs := fs2\<rparr>)) = Inl e"
  shows "main_loop run mk wr (p # files) w all_errors failed_files = (w1\<lparr>fs := fs2\<rparr>, Inl e)"
  using assms by simp

lemma loop_verdict_raised:
  assumes "py_print (Validating p) w = Inr w1" "fs w1 p = Some node"
    and "validate_file run mk wr (environ w1) (fs w1) p = (fs2, Inr (passed, outp, missing))"
    and "(if missing \<noteq> [] then py_print (MissingEnvVars missing) (w1\<lparr>fs := fs2\<rparr>)
          else Inr (w1\<lparr>fs := fs2\<rparr>)) = Inr w3"
    and "py_print (if passed then Passed else Failed (py_strip outp)) w3 = Inl e"
  shows "main_loop run mk wr (p # files) w all_errors failed_files = (w3, Inl e)"
  using assms by (cases passed) simp_all

lemma loop_passed_next:
  assumes "py_print (Validating p) w = Inr w1" "fs w1 p = Some node"
    and "validate_file run mk wr (environ w1) (fs w1) p = (fs2, Inr (True, outp, missing))"
    and "(if missing \<noteq> [] then py_print (MissingEnvVars missing) (w1\<lparr>fs := fs2\<rparr>)
          else Inr (w1\<lparr>fs := fs2\<rparr>)) = Inr w3"
    and "py_print Passed w3 = Inr w4"
  shows "main_loop run mk wr (p # files) w all_errors failed_files =
           main_loop run mk wr files w4 all_errors failed_files"
  using assms by simp

lemma loop_failed_next:
  assumes "py_print (Validating p) w = Inr w1" "fs w1 p = Some node"
    and "validate_file run mk wr (environ w1) (fs w1) p = (fs2, Inr (False, outp, missing))"
    and "(if missing \<noteq> [] then py_print (MissingEnvVars missing) (w1\<lparr>fs := fs2\<rparr>)
          else Inr (w1\<lparr>fs := fs2\<rparr>)) = Inr w3"
    and "py_print (Failed (py_strip outp)) w3 = Inr w4"
  shows "main_loop run mk wr (p # files) w all_errors failed_files =
           main_loop run mk wr files w4 (all_errors @ [(p, py_strip outp)]) (failed_files @ [p])"
  using assms by simp

lemma py_print_same:
  assumes "py_print m w = Inr w'" "same_but_console w w0"
  shows "same_but_console w' w0"
  using assms by (auto simp: py_print_def same_but_console_def split: if_splits)

lemma py_print_not_all:
  assumes "py_print m w = Inl e" "same_but_console w w0"
  shows "\<not> prints_all w0"
  using assms by (auto simp: py_print_def same_but_console_def prints_all_def split: if_splits)

lemma file_result_same:
  "same_but_console w w0 \<Longrightarrow> file_result run mk wr w p = file_result run mk wr w0 p"
  by (simp add: file_result_def same_but_console_def)


lemma main_loop_cases:
  assumes "same_but_console w w0"
    and "mk (fs w0) ''.sql'' \<notin> dom (fs w0)"
  shows "(\<exists>w' e. main_loop run mk wr files w all_errors failed_files = (w', Inl e) \<and>
            ((\<exists>p\<in>set files. raises run mk wr w0 p) \<or> \<not> prints_all w0)) \<or>
         (\<exists>w' es. main_loop run mk wr files w all_errors failed_files =
            (w', Inr (all_errors @ es, failed_files @ filter (fails run mk wr w0) files)) \<and>
          map fst es = filter (fails run mk wr w0) files \<and> same_but_console w' w0)"
    (is "?P files w all_errors failed_files")
  using assms
proof (induction files arbitrary: w all_errors failed_files)
  case Nil
  then show ?case by simp
next
  case (Cons p files)
  note fresh = \<open>mk (fs w0) ''.sql'' \<notin> dom (fs w0)\<close>
  note same = \<open>same_but_console w w0\<close>
  let ?loop = "main_loop run mk wr (p # files) w all_errors failed_files"
  have bad: "?P (p # files) w all_errors failed_files"
    if "?loop = (w', Inl e)" "raises run mk wr w0 p \<or> \<not> prints_all w0" for w' e
    using that by auto
  have pass_on: "?P (p # files) w all_errors failed_files"
    if "?loop = main_loop run mk wr files w4 all_errors failed_files"
      "same_but_console w4 w0" "\<not> fails run mk wr w0 p" for w4
  proof -
    from Cons.IH [OF that(2) fresh, of all_errors failed_files]
    have "?P files w4 all_errors failed_files" .
    with that(1,3) show ?thesis by auto
  qed
  show ?case
  proof (cases "py_print (Validating p) w")
    case (Inl e)
    from loop_print_raised [OF Inl] py_print_not_all [OF Inl same] show ?thesis
      by (intro bad) auto
  next
    case (Inr w1)
    note s1 = py_print_same [OF Inr same]
    then have f1: "fs w1 = fs w0" "environ w1 = environ w0" by (simp_all add: same_but_console_def)
    show ?thesis
    proof (cases "fs w0 p")
      case None
      then have absent: "fs w1 p = None" using f1 by simp
      have nf: "\<not> fails run mk wr w0 p" using None by (simp add: fails_def)
      show ?thesis
      proof (cases "py_print FileNotFound w1")
        case (Inl e)
        from loop_absent_raised [OF Inr absent Inl] py_print_not_all [OF Inl s1] show ?thesis
          by (intro bad) auto
      next
        case w2: (Inr w2)
        from loop_absent_next [OF Inr absent w2] py_print_same [OF w2 s1] nf show ?thesis
          by (intro pass_on) auto
      qed
    next
      case (Some node)
      then have ex: "fs w1 p = Some node" using f1 by simp
      obtain fs2 r where v: "validate_file run mk wr (environ w1) (fs w1) p = (fs2, r)"
        by (cases "validate_file run mk wr (environ w1) (fs w1) p")
      then have r: "file_result run mk wr w0 p = r"
        using f1 by (simp add: file_result_def)
      show ?thesis
      proof (cases r)
        case (Inl e)
        have "raises run mk wr w0 p" using Some r Inl by (simp add: raises_def)
        with loop_validate_raised [OF Inr ex v [unfolded Inl]] show ?thesis
          by (intro bad) auto
      next
        case r': (Inr t)
        obtain passed outp missing where t: "t = (passed, outp, missing)" by (cases t)
        from v r' have "snd (validate_file run mk wr (environ w1) (fs w1) p) = Inr t" by simp
        from validate_file_fresh [OF _ this] fresh f1 v have "fs2 = fs w1" by simp
        then have upd: "w1\<lparr>fs := fs2\<rparr> = w1" by simp
        note v' = v [unfolded r' t]
        let ?m = "if missing \<noteq> [] then py_print (MissingEnvVars missing) (w1\<lparr>fs := fs2\<rparr>)
                  else Inr (w1\<lparr>fs := fs2\<rparr>)"
        show ?thesis
        proof (cases ?m)
          case (Inl e)
          then have "py_print (MissingEnvVars missing) w1 = Inl e"
            using upd by (simp split: if_splits)
          from loop_missing_raised [OF Inr ex v' Inl] py_print_not_all [OF this s1] show ?thesis
            by (intro bad) auto
        next
          case w3: (Inr w3)
          have s3: "same_but_console w3 w0"
          proof (cases "missing \<noteq> []")
            case True
            with w3 upd have "py_print (MissingEnvVars missing) w1 = Inr w3" by simp
            from py_print_same [OF this s1] show ?thesis .
          next
            case False
            with w3 upd s1 show ?thesis by simp
          qed
          let ?v = "if passed then Passed else Failed (py_strip outp)"
          show ?thesis
          proof (cases "py_print ?v w3")
            case (Inl e)
            from loop_verdict_raised [OF Inr ex v' w3 Inl] py_print_not_all [OF Inl s3]
            show ?thesis by (intro bad) auto
          next
            case w4: (Inr w4)
            note s4 = py_print_same [OF w4 s3]
            show ?thesis
            proof (cases passed)
              case True
              have nf: "\<not> fails run mk wr w0 p" using True r r' t by (simp add: fails_def)
              from v' True have vt:
                "validate_file run mk wr (environ w1) (fs w1) p = (fs2, Inr (True, outp, missing))"
                by simp
              from w4 True have "py_print Passed w3 = Inr w4" by simp
              from loop_passed_next [OF Inr ex vt w3 this] s4 nf show ?thesis
                using True by (intro pass_on) auto
            next
              case False
              have f: "fails run mk wr w0 p" using False Some r r' t by (simp add: fails_def)
              let ?ae = "all_errors @ [(p, py_strip outp)]"
              let ?ff = "failed_files @ [p]"
              from v' False have vf:
                "validate_file run mk wr (environ w1) (fs w1) p = (fs2, Inr (False, outp, missing))"
                by simp
              from w4 False have "py_print (Failed (py_strip outp)) w3 = Inr w4" by simp
              from loop_failed_next [OF Inr ex vf w3 this]
              have step: "?loop = main_loop run mk wr files w4 ?ae ?ff" using False by simp
              from Cons.IH [OF s4 fresh, of ?ae ?ff] have "?P files w4 ?ae ?ff" .
              then show ?thesis
              proof
                assume "\<exists>w' e. main_loop run mk wr files w4 ?ae ?ff = (w', Inl e) \<and>
                  ((\<exists>q\<in>set files. raises run mk wr w0 q) \<or> \<not> prints_all w0)"
                with step show ?thesis by auto
              next
                assume "\<exists>w' es. main_loop run mk wr files w4 ?ae ?ff =
                    (w', Inr (?ae @ es, ?ff @ filter (fails run mk wr w0) files)) \<and>
                  map fst es = filter (fails run mk wr w0) files \<and> same_but_console w' w0"
                then obtain w' es where a:
                  "main_loop run mk wr files w4 ?ae ?ff =
                    (w', Inr (?ae @ es, ?ff @ filter (fails run mk wr w0) files))"
                  "map fst es = filter (fails run mk wr w0) files" "same_but_console w' w0"
                  by blast
                have "?loop =
                    (w', Inr (all_errors @ ((p, py_strip outp) # es),
                              failed_files @ filter (fails run mk wr w0) (p # files))) \<and>
                  map fst ((p, py_strip outp) # es) = filter (fails run mk wr w0) (p # files) \<and>
                  same_but_console w' w0"
                  using step a f by simp
                then show ?thesis by blast
              qed
            qed
          qed
        qed
      qed
    qed
  qed
qed


lemma main_loop_all_absent:
  assumes "prints_all w" "\<forall>p\<in>set files. fs w p = None"
  shows "\<exists>w'. main_loop run mk wr files w all_errors failed_files =
            (w', Inr (all_errors, failed_files)) \<and> same_but_console w' w"
  using assms
proof (induction files arbitrary: w)
  case Nil
  then show ?case by (simp add: same_but_console_def)
next
  case (Cons p files)
  let ?w = "w\<lparr>console := console w @ [Validating p, FileNotFound]\<rparr>"
  from Cons.prems have enc: "stdout_encodes w (Validating p)" "stdout_encodes w FileNotFound"
    by (simp_all add: prints_all_def)
  from Cons.prems have "fs w p = None" by simp
  from main_loop_absent [OF this enc, of run mk wr files all_errors failed_files]
  have step: "main_loop run mk wr (p # files) w all_errors failed_files =
    main_loop run mk wr files ?w all_errors failed_files" .
  from Cons.prems have "prints_all ?w" "\<forall>q\<in>set files. fs ?w q = None"
    by (simp_all add: prints_all_def)
  from Cons.IH [OF this] obtain w' where
    "main_loop run mk wr files ?w all_errors failed_files = (w', Inr (all_errors, failed_files))"
    "same_but_console w' ?w" by blast
  with step show ?case by (auto simp: same_but_console_def)
qed

lemma print_and_exit_ok:
  assumes "ascii_message m \<or> stdout_encodes w m"
  shows "print_and_exit m n w = (w\<lparr>console := console w @ [m]\<rparr>, SysExit n)"
  using assms by (simp add: print_and_exit_def py_print_def)

lemma print_and_exit_one:
  "exit_status (snd (print_and_exit m 1 w)) = 1"
  by (simp add: print_and_exit_def split: sum.splits)

lemma main_no_candidates:
  assumes "candidate_files w = []"
  shows "snd (main run mk wr w) = SysExit 0 \<and> fs (fst (main run mk wr w)) = fs w"
  using assms by (simp add: main_def candidate_files_def Let_def print_and_exit_ok)

lemma main_candidates:
  assumes "candidate_files w \<noteq> []"
  shows "main run mk wr w =
    (case py_print (Banner (length (candidate_files w))) w of
       Inl e \<Rightarrow> (w, Uncaught e)
     | Inr w0 \<Rightarrow>
         (case main_loop run mk wr (candidate_files w) w0 [] [] of
            (w1, Inl e) \<Rightarrow> (w1, Uncaught e)
          | (w1, Inr (all_errors, failed_files)) \<Rightarrow>
              (let w2 = (if all_errors \<noteq> []
                         then w1\<lparr>fs := (fs w1)(ERROR_LOG \<mapsto> File (report all_errors))\<rparr>
                         else w1)
               in if failed_files \<noteq> [] then
                    print_and_exit
                      (ResultFailed (length failed_files) (length (candidate_files w))
                         failed_files) 1 w2
                  else print_and_exit (ResultPassed (length (candidate_files w))) 0 w2)))"
proof -
  let ?v = "py_strip (case environ w ''CHANGED_FILES'' of None \<Rightarrow> [] | Some v \<Rightarrow> v)"
  from assms have "?v \<noteq> []"
    by (auto simp: candidate_files_def py_split_def)
  with assms show ?thesis
    by (simp add: main_def candidate_files_def Let_def split: prod.splits sum.splits)
qed

lemma passes_or_absent:
  assumes "fs w p = None \<or> passes run mk wr w p"
  shows "\<not> fails run mk wr w p" "\<not> raises run mk wr w p"
  using assms
  by (cases "file_result run mk wr w p"; auto simp: fails_def raises_def passes_def)+

section \<open>The claims\<close>

text \<open>
  C5. A text in which the token pattern matches nowhere is returned unchanged, with an
  empty list of missing tokens, in every environment. Hence, when the text returned by
  a substitution has no match left, substituting it again (in any environment) returns it
  unchanged with an empty list.
\<close>

theorem substitute_tokens_no_reference:
  "(\<not> has_token text \<longrightarrow> substitute_tokens env text = (text, [])) \<and>
   (\<not> has_token (fst (substitute_tokens env text)) \<longrightarrow>
      substitute_tokens env2 (fst (substitute_tokens env text)) =
        (fst (substitute_tokens env text), []))"
  by (simp add: substitute_tokens_def re_sub_no_token)

theorem substitute_tokens_no_reference_witness:
  "\<not> has_token ''SELECT 1 FROM t'' \<and>
   substitute_tokens Map.empty ''SELECT 1 FROM t'' = (''SELECT 1 FROM t'', []) \<and>
   fst (substitute_tokens [''DB'' \<mapsto> ''prod''] ''USE ${DB};'') = ''USE prod;'' \<and>
   \<not> has_token ''USE prod;'' \<and>
   substitute_tokens Map.empty ''USE prod;'' = (''USE prod;'', [])"
proof -
  have a: "\<not> has_token ''SELECT 1 FROM t''"
    by (simp add: match_token_def)
  have b: "fst (substitute_tokens [''DB'' \<mapsto> ''prod''] ''USE ${DB};'') = ''USE prod;''"
    by (simp add: substitute_tokens_def re_sub.simps match_token_def replacer_def)
  have c: "\<not> has_token ''USE prod;''"
    by (simp add: match_token_def)
  from substitute_tokens_no_reference [of "''SELECT 1 FROM t''" Map.empty Map.empty]
    substitute_tokens_no_reference [of "''USE ${DB};''" "[''DB'' \<mapsto> ''prod'']" Map.empty]
    a b c
  show ?thesis by simp
qed

text \<open>
  C3. A token name that the environment defines never appears in the list of missing
  tokens, whatever the text. A reference \<open>${name}\<close> to it that the scan reaches (after
  any number of earlier references, each preceded by text without \<open>${\<close>) is replaced by
  the value of the environment as it is: the value stands in the output unchanged, it is
  not scanned for further tokens, and the reference adds nothing to the list.
\<close>

theorem substitute_tokens_present:
  assumes "env name = Some v"
  shows "name \<notin> set (snd (substitute_tokens env content)) \<and>
    (well_formed ps \<and> \<not> str_in ''${'' lit \<and> name \<noteq> [] \<and> CHR ''}'' \<notin> set name \<longrightarrow>
      substitute_tokens env (spec_render ps (lit @ ''${'' @ name @ ''}'' @ post)) =
        (spec_expand env ps @ lit @ v @ fst (substitute_tokens env post),
         spec_missing env ps @ snd (substitute_tokens env post)))"
proof
  show "name \<notin> set (snd (substitute_tokens env content))"
    using missing_only_absent [of name env content "[]"] assms
    by (auto simp: substitute_tokens_def)
next
  show "well_formed ps \<and> \<not> str_in ''${'' lit \<and> name \<noteq> [] \<and> CHR ''}'' \<notin> set name \<longrightarrow>
      substitute_tokens env (spec_render ps (lit @ ''${'' @ name @ ''}'' @ post)) =
        (spec_expand env ps @ lit @ v @ fst (substitute_tokens env post),
         spec_missing env ps @ snd (substitute_tokens env post))"
  proof
    assume h: "well_formed ps \<and> \<not> str_in ''${'' lit \<and> name \<noteq> [] \<and> CHR ''}'' \<notin> set name"
    then have r: "substitute_tokens env (lit @ ''${'' @ name @ ''}'' @ post) =
        (lit @ v @ fst (substitute_tokens env post), snd (substitute_tokens env post))"
      using substitute_tokens_reference [of lit name env post] assms
      by (simp add: spec_value_def)
    from h have "well_formed ps" by simp
    from substitute_tokens_template [OF this, of env "lit @ ''${'' @ name @ ''}'' @ post"] r
    show "substitute_tokens env (spec_render ps (lit @ ''${'' @ name @ ''}'' @ post)) =
        (spec_expand env ps @ lit @ v @ fst (substitute_tokens env post),
         spec_missing env ps @ snd (substitute_tokens env post))"
      by simp
  qed
qed

theorem substitute_tokens_present_witness:
  "[''DB'' \<mapsto> ''p${X}''] ''DB'' = Some ''p${X}'' \<and>
   well_formed [(''a '', ''Y'')] \<and> \<not> str_in ''${'' '' b '' \<and> ''DB'' \<noteq> [] \<and>
   CHR ''}'' \<notin> set ''DB'' \<and>
   spec_render [(''a '', ''Y'')] ('' b '' @ ''${'' @ ''DB'' @ ''}'' @ '' c'') = ''a ${Y} b ${DB} c'' \<and>
   ''DB'' \<notin> set (snd (substitute_tokens [''DB'' \<mapsto> ''p${X}''] ''a ${Y} b ${DB} c'')) \<and>
   substitute_tokens [''DB'' \<mapsto> ''p${X}''] ''a ${Y} b ${DB} c'' =
     (''a '' @ placeholder ''Y'' @ '' b p${X} c'', [''Y''])"
proof -
  have e: "[''DB'' \<mapsto> ''p${X}''] ''DB'' = Some ''p${X}''" by simp
  have w: "well_formed [(''a '', ''Y'')] \<and> \<not> str_in ''${'' '' b '' \<and> ''DB'' \<noteq> [] \<and>
     CHR ''}'' \<notin> set ''DB''"
    by (simp add: well_formed_def)
  have p: "substitute_tokens [''DB'' \<mapsto> ''p${X}''] '' c'' = ('' c'', [])"
    by (simp add: substitute_tokens_def re_sub.simps match_token_def)
  from substitute_tokens_present [where env = "[''DB'' \<mapsto> ''p${X}'']" and name = "''DB''"
      and v = "''p${X}''" and content = "''a ${Y} b ${DB} c''" and ps = "[(''a '', ''Y'')]"
      and lit = "'' b ''" and post = "'' c''"]
    e w p
  show ?thesis by (simp add: spec_missing_def spec_value_def)
qed

text \<open>
  C4. The name of a missing token is copied into the placeholder as it is, and the
  pattern admits a quote character in a name. For the text \<open>SELECT ${it's}\<close> in an
  environment without that name, the reference is replaced by \<open>'__MISSING_it's__'\<close>
  and the name is recorded once as missing, but the replacement is not a quoted
  literal: the quote of the name ends it early.
\<close>

theorem substitute_tokens_placeholder_unquoted:
  "substitute_tokens Map.empty (''SELECT ${it'' @ [quote] @ ''s}'') =
     (''SELECT '' @ [quote] @ ''__MISSING_it'' @ [quote] @ ''s__'' @ [quote],
      [''it'' @ [quote] @ ''s'']) \<and>
   \<not> quoted_literal ([quote] @ ''__MISSING_it'' @ [quote] @ ''s__'' @ [quote])"
  by (simp add: substitute_tokens_def re_sub.simps match_token_def replacer_def
      placeholder_def quoted_literal_def quote_def backslash_def)

text \<open>
  C6. The pattern asks for at least one character between the braces, so \<open>${}\<close> is not
  a token reference: the empty name is never looked up and never appears in the list
  of missing tokens, whatever the text, and a \<open>${}\<close> that the scan reaches (after text
  without \<open>${\<close>) stays in the output as it is.
\<close>

theorem substitute_tokens_empty_name:
  "[] \<notin> set (snd (substitute_tokens env content)) \<and>
   (\<not> str_in ''${'' lit \<longrightarrow>
      substitute_tokens env (lit @ ''${}'' @ post) =
        (lit @ ''${}'' @ fst (substitute_tokens env post), snd (substitute_tokens env post)))"
proof (intro conjI impI)
  show "[] \<notin> set (snd (substitute_tokens env content))"
    using missing_only_absent [of "[]" env content "[]"]
    by (auto simp: substitute_tokens_def)
next
  assume l: "\<not> str_in ''${'' lit"
  let ?r = "replacer env"
  have a: "match_token (CHR ''$'' # ''{}'' @ post) = None"
    by (simp add: match_token_def)
  have b: "match_token (CHR ''{'' # ''}'' @ post) = None"
    by (simp add: match_token_def)
  have c: "match_token (CHR ''}'' # post) = None"
    by (simp add: match_token_def split: list.splits)
  have "re_sub ?r (CHR ''$'' # ''{}'' @ post) [] =
      (''${}'' @ fst (re_sub ?r post []), snd (re_sub ?r post []))"
    using re_sub_no_match [OF a, of ?r "[]"] re_sub_no_match [OF b, of ?r "[]"]
      re_sub_no_match [OF c, of ?r "[]"]
    by simp
  with re_sub_literal [OF l, of ?r "''{}'' @ post" "[]"]
  show "substitute_tokens env (lit @ ''${}'' @ post) =
      (lit @ ''${}'' @ fst (substitute_tokens env post), snd (substitute_tokens env post))"
    by (simp add: substitute_tokens_def)
qed

theorem substitute_tokens_empty_name_witness:
  "\<not> str_in ''${'' ''a'' \<and>
   [] \<notin> set (snd (substitute_tokens Map.empty ''a${}b${X}'')) \<and>
   substitute_tokens Map.empty ''a${}b${X}'' = (''a${}b'' @ placeholder ''X'', [''X''])"
proof -
  have l: "\<not> str_in ''${'' ''a''" by simp
  have p: "substitute_tokens Map.empty ''b${X}'' = (''b'' @ placeholder ''X'', [''X''])"
    by (simp add: substitute_tokens_def re_sub.simps match_token_def replacer_def)
  from substitute_tokens_empty_name [where env = Map.empty and content = "''a${}b${X}''"
      and lit = "''a''" and post = "''b${X}''"] l p
  show ?thesis by simp
qed

text \<open>
  The claim as it is written fails on the text \<open>${}\<close>: nothing is replaced and nothing
  is recorded.
\<close>

theorem substitute_tokens_empty_name_counterexample:
  "substitute_tokens Map.empty ''${}'' = (''${}'', []) \<and>
   fst (substitute_tokens Map.empty ''${}'') \<noteq> placeholder [] \<and>
   [] \<notin> set (snd (substitute_tokens Map.empty ''${}''))"
  by (simp add: substitute_tokens_def re_sub.simps match_token_def placeholder_def)

text \<open>
  C1. When the temporary file has been written and the checker completes,
  \<open>validate_file\<close> reports a failure whenever the combined output (standard output, then
  standard error) contains \<open>[UNPARSABLE]\<close>, whatever the exit status; and it reports
  success whenever the exit status is 0 or 1 and the combined output contains neither
  \<open>[UNPARSABLE]\<close> nor \<open>FATAL\<close>.
\<close>

theorem validate_file_classification:
  assumes "disk filepath = Some (File content)"
    and "wr (fst (substitute_tokens env content)) = Written"
    and "run (sqlfluff_command (mk disk ''.sql'')) 120
           (disk(mk disk ''.sql'' \<mapsto> File (fst (substitute_tokens env content)))) = Completed rc out err"
  shows "(str_in ''[UNPARSABLE]'' (out @ err) \<longrightarrow>
            snd (validate_file run mk wr env disk filepath) =
              Inr (False, out @ err, snd (substitute_tokens env content))) \<and>
         ((rc = 0 \<or> rc = 1) \<and> \<not> str_in ''[UNPARSABLE]'' (out @ err) \<and> \<not> str_in ''FATAL'' (out @ err) \<longrightarrow>
            snd (validate_file run mk wr env disk filepath) =
              Inr (True, out @ err, snd (substitute_tokens env content)))"
  using assms by (simp add: validate_file_written has_error_def)

theorem validate_file_classification_witness:
  "[''a.snowsql'' \<mapsto> File ''SELECT ${X}''] ''a.snowsql'' = Some (File ''SELECT ${X}'') \<and>
   str_in ''[UNPARSABLE]'' (''L1 [UNPARSABLE] x'' @ ''err'') \<and>
   snd (validate_file (\<lambda>args t d. Completed 0 ''L1 [UNPARSABLE] x'' ''err'') (\<lambda>d suf. ''/tmp/tmp1'' @ suf) (\<lambda>s. Written)
          Map.empty [''a.snowsql'' \<mapsto> File ''SELECT ${X}''] ''a.snowsql'') =
     Inr (False, ''L1 [UNPARSABLE] xerr'', [''X'']) \<and>
   \<not> str_in ''[UNPARSABLE]'' (''ok'' @ ''warn'') \<and> \<not> str_in ''FATAL'' (''ok'' @ ''warn'') \<and>
   snd (validate_file (\<lambda>args t d. Completed 1 ''ok'' ''warn'') (\<lambda>d suf. ''/tmp/tmp1'' @ suf) (\<lambda>s. Written)
          Map.empty [''a.snowsql'' \<mapsto> File ''SELECT ${X}''] ''a.snowsql'') =
     Inr (True, ''okwarn'', [''X''])"
proof -
  have d: "[''a.snowsql'' \<mapsto> File ''SELECT ${X}''] ''a.snowsql'' = Some (File ''SELECT ${X}'')" by simp
  have m: "snd (substitute_tokens Map.empty ''SELECT ${X}'') = [''X'']"
    by (simp add: substitute_tokens_def re_sub.simps match_token_def replacer_def)
  have u: "str_in ''[UNPARSABLE]'' (''L1 [UNPARSABLE] x'' @ ''err'')" by simp
  have c: "\<not> str_in ''[UNPARSABLE]'' (''ok'' @ ''warn'') \<and> \<not> str_in ''FATAL'' (''ok'' @ ''warn'')"
    by simp
  from validate_file_classification [where disk = "[''a.snowsql'' \<mapsto> File ''SELECT ${X}'']" and filepath = "''a.snowsql''"
      and content = "''SELECT ${X}''" and mk = "(\<lambda>d suf. ''/tmp/tmp1'' @ suf)" and wr = "(\<lambda>s. Written)" and env = Map.empty
      and run = "\<lambda>args t d. Completed 0 ''L1 [UNPARSABLE] x'' ''err''"
      and rc = 0 and out = "''L1 [UNPARSABLE] x''" and err = "''err''"]
    validate_file_classification [where disk = "[''a.snowsql'' \<mapsto> File ''SELECT ${X}'']" and filepath = "''a.snowsql''"
      and content = "''SELECT ${X}''" and mk = "(\<lambda>d suf. ''/tmp/tmp1'' @ suf)" and wr = "(\<lambda>s. Written)" and env = Map.empty
      and run = "\<lambda>args t d. Completed 1 ''ok'' ''warn''"
      and rc = 1 and out = "''ok''" and err = "''warn''"]
    d m u c
  show ?thesis by simp
qed

text \<open>
  The claim as it is written fails when the output has \<open>FATAL\<close> and no \<open>[UNPARSABLE]\<close>:
  with exit status 0 the file is reported as failed.
\<close>

theorem validate_file_classification_counterexample:
  "\<not> str_in ''[UNPARSABLE]'' (''FATAL: no such table'' @ []) \<and>
   snd (validate_file (\<lambda>args t d. Completed 0 ''FATAL: no such table'' []) (\<lambda>d suf. ''/tmp/tmp1'' @ suf) (\<lambda>s. Written)
          Map.empty [''a.snowsql'' \<mapsto> File ''SELECT ${X}''] ''a.snowsql'') =
     Inr (False, ''FATAL: no such table'', [''X''])"
  by (simp add: validate_file_def substitute_tokens_def re_sub.simps match_token_def
      replacer_def has_error_def)

text \<open>
  C10. When the temporary file has been written, the checker completes and the
  combined output contains \<open>FATAL\<close>, \<open>validate_file\<close> reports a failure, also when the
  exit status is 0 or 1 and the output has no \<open>[UNPARSABLE]\<close>.
\<close>

theorem validate_file_fatal:
  assumes "disk filepath = Some (File content)"
    and "wr (fst (substitute_tokens env content)) = Written"
    and "run (sqlfluff_command (mk disk ''.sql'')) 120
           (disk(mk disk ''.sql'' \<mapsto> File (fst (substitute_tokens env content)))) = Completed rc out err"
    and "str_in ''FATAL'' (out @ err)"
  shows "snd (validate_file run mk wr env disk filepath) =
           Inr (False, out @ err, snd (substitute_tokens env content))"
  using assms by (simp add: validate_file_written has_error_def)

theorem validate_file_fatal_witness:
  "[''a.snowsql'' \<mapsto> File ''SELECT ${X}''] ''a.snowsql'' = Some (File ''SELECT ${X}'') \<and>
   str_in ''FATAL'' ([] @ ''FATAL error'') \<and> \<not> str_in ''[UNPARSABLE]'' ([] @ ''FATAL error'') \<and>
   snd (validate_file (\<lambda>args t d. Completed 1 [] ''FATAL error'') (\<lambda>d suf. ''/tmp/tmp1'' @ suf) (\<lambda>s. Written)
          Map.empty [''a.snowsql'' \<mapsto> File ''SELECT ${X}''] ''a.snowsql'') =
     Inr (False, ''FATAL error'', [''X''])"
proof -
  have d: "[''a.snowsql'' \<mapsto> File ''SELECT ${X}''] ''a.snowsql'' = Some (File ''SELECT ${X}'')" by simp
  have m: "snd (substitute_tokens Map.empty ''SELECT ${X}'') = [''X'']"
    by (simp add: substitute_tokens_def re_sub.simps match_token_def replacer_def)
  have f: "str_in ''FATAL'' ([] @ ''FATAL error'') \<and> \<not> str_in ''[UNPARSABLE]'' ([] @ ''FATAL error'')"
    by simp
  from validate_file_fatal [where disk = "[''a.snowsql'' \<mapsto> File ''SELECT ${X}'']" and filepath = "''a.snowsql''"
      and content = "''SELECT ${X}''" and mk = "(\<lambda>d suf. ''/tmp/tmp1'' @ suf)" and wr = "(\<lambda>s. Written)" and env = Map.empty
      and run = "\<lambda>args t d. Completed 1 [] ''FATAL error''"
      and rc = 1 and out = "[]" and err = "''FATAL error''"]
    d m f
  show ?thesis by simp
qed

text \<open>
  C7. When the temporary file has been written and \<open>subprocess.run\<close> raises
  \<open>TimeoutExpired\<close>, \<open>validate_file\<close> does not raise: it returns \<open>passed = False\<close>, the
  fixed message about the timeout of 120 seconds, and the list of missing tokens that
  the substitution computed.
\<close>

theorem validate_file_timeout:
  assumes "disk filepath = Some (File content)"
    and "wr (fst (substitute_tokens env content)) = Written"
    and "run (sqlfluff_command (mk disk ''.sql'')) 120
           (disk(mk disk ''.sql'' \<mapsto> File (fst (substitute_tokens env content)))) = TimeoutExpired"
  shows "snd (validate_file run mk wr env disk filepath) =
           Inr (False, ''Validation timed out after 120 seconds.'',
                snd (substitute_tokens env content))"
  using assms by (simp add: validate_file_written)

theorem validate_file_timeout_witness:
  "[''a.snowsql'' \<mapsto> File ''SELECT ${X}''] ''a.snowsql'' = Some (File ''SELECT ${X}'') \<and>
   snd (validate_file (\<lambda>args t d. TimeoutExpired) (\<lambda>d suf. ''/tmp/tmp1'' @ suf) (\<lambda>s. Written) Map.empty [''a.snowsql'' \<mapsto> File ''SELECT ${X}''] ''a.snowsql'') =
     Inr (False, ''Validation timed out after 120 seconds.'', [''X''])"
proof -
  have d: "[''a.snowsql'' \<mapsto> File ''SELECT ${X}''] ''a.snowsql'' = Some (File ''SELECT ${X}'')" by simp
  have m: "snd (substitute_tokens Map.empty ''SELECT ${X}'') = [''X'']"
    by (simp add: substitute_tokens_def re_sub.simps match_token_def replacer_def)
  from validate_file_timeout [where disk = "[''a.snowsql'' \<mapsto> File ''SELECT ${X}'']" and filepath = "''a.snowsql''"
      and content = "''SELECT ${X}''" and mk = "(\<lambda>d suf. ''/tmp/tmp1'' @ suf)" and wr = "(\<lambda>s. Written)" and env = Map.empty
      and run = "\<lambda>args t d. TimeoutExpired"]
    d m
  show ?thesis by simp
qed

text \<open>
  C8. The temporary file is created and written before the \<open>try\<close> block whose
  \<open>finally\<close> clause removes it. When the write raises, \<open>validate_file\<close> ends with that
  exception and the temporary file is still in the file system. (On the ways out of
  the \<open>try\<close> block the file is removed: \<open>validate_file_removes_tmp\<close>.)
\<close>

theorem validate_file_leaves_tmp:
  "validate_file (\<lambda>args t d. Completed 0 [] []) (\<lambda>d suf. ''/tmp/tmp1'' @ suf) (\<lambda>s. WriteFailed []) Map.empty
      [''a.snowsql'' \<mapsto> File ''SELECT ${X}''] ''a.snowsql'' =
     ([''a.snowsql'' \<mapsto> File ''SELECT ${X}''](''/tmp/tmp1.sql'' \<mapsto> File []), Inl TempWriteError) \<and>
   ''/tmp/tmp1.sql'' \<in>
     dom (fst (validate_file (\<lambda>args t d. Completed 0 [] []) (\<lambda>d suf. ''/tmp/tmp1'' @ suf) (\<lambda>s. WriteFailed []) Map.empty
            [''a.snowsql'' \<mapsto> File ''SELECT ${X}''] ''a.snowsql''))"
  by (simp add: validate_file_def case_prod_beta)

text \<open>
  C2. When there is no candidate file (the list in \<open>CHANGED_FILES\<close> is empty or has no
  entry with the extension \<open>.snowsql\<close>), \<open>main\<close> exits with status 0 and leaves the file
  system as it is, so no report is written. When every candidate file that exists
  passes its validation and standard output can encode the messages of the script,
  \<open>main\<close> exits with status 0 and writes no report. When some candidate file fails its
  validation, the exit status of the process is 1. The temporary file gets a name that
  is not in use.
\<close>

theorem main_exit_status:
  "(candidate_files w = [] \<longrightarrow>
      snd (main run mk wr w) = SysExit 0 \<and> fs (fst (main run mk wr w)) = fs w) \<and>
   (mk (fs w) ''.sql'' \<notin> dom (fs w) \<and> prints_all w \<and>
    (\<forall>p\<in>set (candidate_files w). fs w p = None \<or> passes run mk wr w p) \<longrightarrow>
      snd (main run mk wr w) = SysExit 0 \<and> fs (fst (main run mk wr w)) = fs w) \<and>
   (mk (fs w) ''.sql'' \<notin> dom (fs w) \<and> (\<exists>p\<in>set (candidate_files w). fails run mk wr w p) \<longrightarrow>
      exit_status (snd (main run mk wr w)) = 1)"
proof -
  let ?files = "candidate_files w"
  have a: "snd (main run mk wr w) = SysExit 0 \<and> fs (fst (main run mk wr w)) = fs w"
    if "?files = []"
    using that by (rule main_no_candidates)
  have b: "snd (main run mk wr w) = SysExit 0 \<and> fs (fst (main run mk wr w)) = fs w"
    if h: "mk (fs w) ''.sql'' \<notin> dom (fs w) \<and> prints_all w \<and>
      (\<forall>p\<in>set ?files. fs w p = None \<or> passes run mk wr w p)"
  proof (cases "?files = []")
    case True
    then show ?thesis by (rule main_no_candidates)
  next
    case False
    let ?w0 = "w\<lparr>console := console w @ [Banner (length ?files)]\<rparr>"
    from h have enc: "\<And>m. stdout_encodes w m" by (simp add: prints_all_def)
    have banner: "py_print (Banner (length ?files)) w = Inr ?w0"
      using enc by (simp add: py_print_def)
    have same: "same_but_console ?w0 w" by (simp add: same_but_console_def)
    from h have nr: "\<forall>p\<in>set ?files. \<not> raises run mk wr w p"
      using passes_or_absent(2) by blast
    from h have "\<forall>p\<in>set ?files. \<not> fails run mk wr w p"
      using passes_or_absent(1) by blast
    then have nf: "filter (fails run mk wr w) ?files = []"
      by (simp add: filter_empty_conv)
    from main_loop_cases [OF same, of mk run wr ?files "[]" "[]"] h nr nf
    obtain w' where l: "main_loop run mk wr ?files ?w0 [] [] = (w', Inr ([], []))"
      and s: "same_but_console w' w"
      by auto
    from s enc have "stdout_encodes w' (ResultPassed (length ?files))" "fs w' = fs w"
      by (simp_all add: same_but_console_def)
    with l banner show ?thesis
      by (simp add: main_candidates [OF False] print_and_exit_ok)
  qed
  have c: "exit_status (snd (main run mk wr w)) = 1"
    if h: "mk (fs w) ''.sql'' \<notin> dom (fs w) \<and> (\<exists>p\<in>set ?files. fails run mk wr w p)"
  proof -
    from h have ne: "?files \<noteq> []" by auto
    from h have nf: "filter (fails run mk wr w) ?files \<noteq> []"
      by (auto simp: filter_empty_conv)
    show ?thesis
    proof (cases "py_print (Banner (length ?files)) w")
      case (Inl e)
      then show ?thesis by (simp add: main_candidates [OF ne])
    next
      case (Inr w0)
      have "same_but_console w w" by (simp add: same_but_console_def)
      from py_print_same [OF Inr this] have same: "same_but_console w0 w" .
      from main_loop_cases [OF same, of mk run wr ?files "[]" "[]"] h
      consider (raised) w' e where "main_loop run mk wr ?files w0 [] [] = (w', Inl e)"
        | (returned) w' es where
            "main_loop run mk wr ?files w0 [] [] = (w', Inr (es, filter (fails run mk wr w) ?files))"
        by auto
      then show ?thesis
      proof cases
        case raised
        with Inr show ?thesis by (simp add: main_candidates [OF ne])
      next
        case returned
        with Inr nf show ?thesis
          by (simp add: main_candidates [OF ne] Let_def print_and_exit_one)
      qed
    qed
  qed
  from a b c show ?thesis by blast
qed

theorem main_exit_status_witness:
  "candidate_files \<lparr>environ = Map.empty, fs = Map.empty, console = [], stdout_encodes = (\<lambda>m. True)\<rparr> = [] \<and>
   snd (main (\<lambda>args t d. RunError) (\<lambda>d suf. ''/tmp/tmp1'' @ suf) (\<lambda>s. Written) \<lparr>environ = Map.empty, fs = Map.empty, console = [], stdout_encodes = (\<lambda>m. True)\<rparr>) = SysExit 0 \<and>
   fs (fst (main (\<lambda>args t d. RunError) (\<lambda>d suf. ''/tmp/tmp1'' @ suf) (\<lambda>s. Written) \<lparr>environ = Map.empty, fs = Map.empty, console = [], stdout_encodes = (\<lambda>m. True)\<rparr>)) = Map.empty \<and>
   candidate_files \<lparr>environ = [''CHANGED_FILES'' \<mapsto> ''a.snowsql gone.snowsql notes.txt''], fs = [''a.snowsql'' \<mapsto> File ''SELECT ${X}''], console = [], stdout_encodes = (\<lambda>m. True)\<rparr> = [''a.snowsql'', ''gone.snowsql''] \<and>
   ''/tmp/tmp1.sql'' \<notin> dom (fs \<lparr>environ = [''CHANGED_FILES'' \<mapsto> ''a.snowsql gone.snowsql notes.txt''], fs = [''a.snowsql'' \<mapsto> File ''SELECT ${X}''], console = [], stdout_encodes = (\<lambda>m. True)\<rparr>) \<and>
   prints_all \<lparr>environ = [''CHANGED_FILES'' \<mapsto> ''a.snowsql gone.snowsql notes.txt''], fs = [''a.snowsql'' \<mapsto> File ''SELECT ${X}''], console = [], stdout_encodes = (\<lambda>m. True)\<rparr> \<and>
   passes (\<lambda>args t d. Completed 0 ''ok'' []) (\<lambda>d suf. ''/tmp/tmp1'' @ suf) (\<lambda>s. Written) \<lparr>environ = [''CHANGED_FILES'' \<mapsto> ''a.snowsql gone.snowsql notes.txt''], fs = [''a.snowsql'' \<mapsto> File ''SELECT ${X}''], console = [], stdout_encodes = (\<lambda>m. True)\<rparr> ''a.snowsql'' \<and>
   fs \<lparr>environ = [''CHANGED_FILES'' \<mapsto> ''a.snowsql gone.snowsql notes.txt''], fs = [''a.snowsql'' \<mapsto> File ''SELECT ${X}''], console = [], stdout_encodes = (\<lambda>m. True)\<rparr> ''gone.snowsql'' = None \<and>
   snd (main (\<lambda>args t d. Completed 0 ''ok'' []) (\<lambda>d suf. ''/tmp/tmp1'' @ suf) (\<lambda>s. Written) \<lparr>environ = [''CHANGED_FILES'' \<mapsto> ''a.snowsql gone.snowsql notes.txt''], fs = [''a.snowsql'' \<mapsto> File ''SELECT ${X}''], console = [], stdout_encodes = (\<lambda>m. True)\<rparr>) = SysExit 0 \<and>
   fs (fst (main (\<lambda>args t d. Completed 0 ''ok'' []) (\<lambda>d suf. ''/tmp/tmp1'' @ suf) (\<lambda>s. Written) \<lparr>environ = [''CHANGED_FILES'' \<mapsto> ''a.snowsql gone.snowsql notes.txt''], fs = [''a.snowsql'' \<mapsto> File ''SELECT ${X}''], console = [], stdout_encodes = (\<lambda>m. True)\<rparr>)) = fs \<lparr>environ = [''CHANGED_FILES'' \<mapsto> ''a.snowsql gone.snowsql notes.txt''], fs = [''a.snowsql'' \<mapsto> File ''SELECT ${X}''], console = [], stdout_encodes = (\<lambda>m. True)\<rparr> \<and>
   fails (\<lambda>args t d. Completed 0 ''[UNPARSABLE]'' []) (\<lambda>d suf. ''/tmp/tmp1'' @ suf) (\<lambda>s. Written) \<lparr>environ = [''CHANGED_FILES'' \<mapsto> ''a.snowsql gone.snowsql notes.txt''], fs = [''a.snowsql'' \<mapsto> File ''SELECT ${X}''], console = [], stdout_encodes = (\<lambda>m. True)\<rparr> ''a.snowsql'' \<and>
   exit_status (snd (main (\<lambda>args t d. Completed 0 ''[UNPARSABLE]'' []) (\<lambda>d suf. ''/tmp/tmp1'' @ suf) (\<lambda>s. Written) \<lparr>environ = [''CHANGED_FILES'' \<mapsto> ''a.snowsql gone.snowsql notes.txt''], fs = [''a.snowsql'' \<mapsto> File ''SELECT ${X}''], console = [], stdout_encodes = (\<lambda>m. True)\<rparr>)) = 1"
proof -
  let ?wA = "\<lparr>environ = Map.empty, fs = Map.empty, console = [], stdout_encodes = (\<lambda>m. True)\<rparr>"
  let ?wB = "\<lparr>environ = [''CHANGED_FILES'' \<mapsto> ''a.snowsql gone.snowsql notes.txt''], fs = [''a.snowsql'' \<mapsto> File ''SELECT ${X}''], console = [], stdout_encodes = (\<lambda>m. True)\<rparr>"
  let ?mk = "(\<lambda>d suf. ''/tmp/tmp1'' @ suf)"
  let ?wr = "(\<lambda>s. Written)"
  let ?ok = "\<lambda>(args :: string list) (t :: nat) (d :: filesystem). Completed 0 ''ok'' []"
  let ?bad = "\<lambda>(args :: string list) (t :: nat) (d :: filesystem). Completed 0 ''[UNPARSABLE]'' []"
  have a: "candidate_files ?wA = []"
    by (simp add: candidate_files_def py_split_def py_strip_def)
  have b: "candidate_files ?wB = [''a.snowsql'', ''gone.snowsql'']"
    by (simp add: candidate_files_def py_split_def py_strip_def py_isspace_def suffix_to_prefix)
  have fr: "?mk (fs ?wB) ''.sql'' \<notin> dom (fs ?wB)" by simp
  have pr: "prints_all ?wB" by (simp add: prints_all_def)
  have g: "fs ?wB ''gone.snowsql'' = None" by simp
  have p: "passes ?ok ?mk ?wr ?wB ''a.snowsql''"
    by (simp add: passes_def fails_def file_result_def validate_file_def substitute_tokens_def
        re_sub.simps match_token_def replacer_def has_error_def)
  have f: "fails ?bad ?mk ?wr ?wB ''a.snowsql''"
    by (simp add: passes_def fails_def file_result_def validate_file_def substitute_tokens_def
        re_sub.simps match_token_def replacer_def has_error_def)
  from main_exit_status [where w = ?wA and mk = ?mk and wr = ?wr and run = "\<lambda>args t d. RunError"]
    main_exit_status [where w = ?wB and mk = ?mk and wr = ?wr and run = ?ok]
    main_exit_status [where w = ?wB and mk = ?mk and wr = ?wr and run = ?bad]
    a b fr pr g p f
  show ?thesis by simp
qed

text \<open>
  The claim as it is written fails when standard output cannot encode the banner (an
  ASCII console): the only candidate file would pass, and the run ends with the
  exception of \<open>print\<close>, exit status 1.
\<close>

theorem main_exit_status_counterexample:
  "candidate_files \<lparr>environ = [''CHANGED_FILES'' \<mapsto> ''a.snowsql''], fs = [''a.snowsql'' \<mapsto> File ''SELECT 1''], console = [], stdout_encodes = (\<lambda>m. False)\<rparr> = [''a.snowsql''] \<and>
   passes (\<lambda>args t d. Completed 0 ''ok'' []) (\<lambda>d suf. ''/tmp/tmp1'' @ suf) (\<lambda>s. Written) \<lparr>environ = [''CHANGED_FILES'' \<mapsto> ''a.snowsql''], fs = [''a.snowsql'' \<mapsto> File ''SELECT 1''], console = [], stdout_encodes = (\<lambda>m. False)\<rparr> ''a.snowsql'' \<and>
   snd (main (\<lambda>args t d. Completed 0 ''ok'' []) (\<lambda>d suf. ''/tmp/tmp1'' @ suf) (\<lambda>s. Written) \<lparr>environ = [''CHANGED_FILES'' \<mapsto> ''a.snowsql''], fs = [''a.snowsql'' \<mapsto> File ''SELECT 1''], console = [], stdout_encodes = (\<lambda>m. False)\<rparr>) = Uncaught PrintError \<and>
   exit_status (snd (main (\<lambda>args t d. Completed 0 ''ok'' []) (\<lambda>d suf. ''/tmp/tmp1'' @ suf) (\<lambda>s. Written) \<lparr>environ = [''CHANGED_FILES'' \<mapsto> ''a.snowsql''], fs = [''a.snowsql'' \<mapsto> File ''SELECT 1''], console = [], stdout_encodes = (\<lambda>m. False)\<rparr>)) = 1"
  by (simp add: candidate_files_def py_split_def py_strip_def py_isspace_def suffix_to_prefix
      main_def py_print_def Let_def passes_def fails_def file_result_def validate_file_def substitute_tokens_def
        re_sub.simps match_token_def replacer_def has_error_def)

text \<open>
  C9. A path of the list that does not exist when the loop reaches it is skipped,
  provided standard output can encode the progress line and the warning: the loop
  prints both and goes on with the rest of the list, with \<open>all_errors\<close>,
  \<open>failed_files\<close> and the file system as they were, and \<open>validate_file\<close> is not called.
  When no candidate file exists and standard output can encode the messages of the
  script, \<open>main\<close> exits with status 0 and writes no report.
\<close>

theorem main_skips_absent_file:
  "(fs w p = None \<and> stdout_encodes w (Validating p) \<and> stdout_encodes w FileNotFound \<longrightarrow>
      main_loop run mk wr (p # files) w all_errors failed_files =
        main_loop run mk wr files (w\<lparr>console := console w @ [Validating p, FileNotFound]\<rparr>)
          all_errors failed_files) \<and>
   (prints_all w \<and> (\<forall>p\<in>set (candidate_files w). fs w p = None) \<longrightarrow>
      snd (main run mk wr w) = SysExit 0 \<and> fs (fst (main run mk wr w)) = fs w)"
proof -
  let ?files = "candidate_files w"
  have a: "main_loop run mk wr (p # files) w all_errors failed_files =
        main_loop run mk wr files (w\<lparr>console := console w @ [Validating p, FileNotFound]\<rparr>)
          all_errors failed_files"
    if "fs w p = None \<and> stdout_encodes w (Validating p) \<and> stdout_encodes w FileNotFound"
    using that main_loop_absent [of w p run mk wr files all_errors failed_files] by simp
  have b: "snd (main run mk wr w) = SysExit 0 \<and> fs (fst (main run mk wr w)) = fs w"
    if h: "prints_all w \<and> (\<forall>p\<in>set ?files. fs w p = None)"
  proof (cases "?files = []")
    case True
    then show ?thesis by (rule main_no_candidates)
  next
    case False
    let ?w0 = "w\<lparr>console := console w @ [Banner (length ?files)]\<rparr>"
    from h have enc: "\<And>m. stdout_encodes w m" by (simp add: prints_all_def)
    have banner: "py_print (Banner (length ?files)) w = Inr ?w0"
      using enc by (simp add: py_print_def)
    from h have "prints_all ?w0" "\<forall>p\<in>set ?files. fs ?w0 p = None"
      by (simp_all add: prints_all_def)
    from main_loop_all_absent [OF this, of run mk wr "[]" "[]"]
    obtain w' where l: "main_loop run mk wr ?files ?w0 [] [] = (w', Inr ([], []))"
      and s: "same_but_console w' ?w0" by blast
    from s enc have "stdout_encodes w' (ResultPassed (length ?files))" "fs w' = fs w"
      by (simp_all add: same_but_console_def)
    with l banner show ?thesis
      by (simp add: main_candidates [OF False] print_and_exit_ok)
  qed
  from a b show ?thesis by blast
qed

theorem main_skips_absent_file_witness:
  "fs \<lparr>environ = [''CHANGED_FILES'' \<mapsto> ''gone.snowsql''], fs = [''a.snowsql'' \<mapsto> File ''SELECT 1''], console = [], stdout_encodes = (\<lambda>m. True)\<rparr> ''gone.snowsql'' = None \<and>
   prints_all \<lparr>environ = [''CHANGED_FILES'' \<mapsto> ''gone.snowsql''], fs = [''a.snowsql'' \<mapsto> File ''SELECT 1''], console = [], stdout_encodes = (\<lambda>m. True)\<rparr> \<and>
   main_loop (\<lambda>args t d. RunError) (\<lambda>d suf. ''/tmp/tmp1'' @ suf) (\<lambda>s. Written) [''gone.snowsql''] \<lparr>environ = [''CHANGED_FILES'' \<mapsto> ''gone.snowsql''], fs = [''a.snowsql'' \<mapsto> File ''SELECT 1''], console = [], stdout_encodes = (\<lambda>m. True)\<rparr> [] [] =
     (\<lparr>environ = [''CHANGED_FILES'' \<mapsto> ''gone.snowsql''], fs = [''a.snowsql'' \<mapsto> File ''SELECT 1''], console = [], stdout_encodes = (\<lambda>m. True)\<rparr>\<lparr>console := [Validating ''gone.snowsql'', FileNotFound]\<rparr>, Inr ([], [])) \<and>
   candidate_files \<lparr>environ = [''CHANGED_FILES'' \<mapsto> ''gone.snowsql''], fs = [''a.snowsql'' \<mapsto> File ''SELECT 1''], console = [], stdout_encodes = (\<lambda>m. True)\<rparr> = [''gone.snowsql''] \<and>
   snd (main (\<lambda>args t d. RunError) (\<lambda>d suf. ''/tmp/tmp1'' @ suf) (\<lambda>s. Written) \<lparr>environ = [''CHANGED_FILES'' \<mapsto> ''gone.snowsql''], fs = [''a.snowsql'' \<mapsto> File ''SELECT 1''], console = [], stdout_encodes = (\<lambda>m. True)\<rparr>) = SysExit 0 \<and>
   fs (fst (main (\<lambda>args t d. RunError) (\<lambda>d suf. ''/tmp/tmp1'' @ suf) (\<lambda>s. Written) \<lparr>environ = [''CHANGED_FILES'' \<mapsto> ''gone.snowsql''], fs = [''a.snowsql'' \<mapsto> File ''SELECT 1''], console = [], stdout_encodes = (\<lambda>m. True)\<rparr>)) = fs \<lparr>environ = [''CHANGED_FILES'' \<mapsto> ''gone.snowsql''], fs = [''a.snowsql'' \<mapsto> File ''SELECT 1''], console = [], stdout_encodes = (\<lambda>m. True)\<rparr>"
proof -
  let ?w = "\<lparr>environ = [''CHANGED_FILES'' \<mapsto> ''gone.snowsql''], fs = [''a.snowsql'' \<mapsto> File ''SELECT 1''], console = [], stdout_encodes = (\<lambda>m. True)\<rparr>"
  have g: "fs ?w ''gone.snowsql'' = None" by simp
  have pr: "prints_all ?w" by (simp add: prints_all_def)
  have c: "candidate_files ?w = [''gone.snowsql'']"
    by (simp add: candidate_files_def py_split_def py_strip_def py_isspace_def suffix_to_prefix)
  from main_skips_absent_file [where w = ?w and p = "''gone.snowsql''" and files = "[]"
      and all_errors = "[]" and failed_files = "[]" and mk = "(\<lambda>d suf. ''/tmp/tmp1'' @ suf)" and wr = "(\<lambda>s. Written)"
      and run = "\<lambda>args t d. RunError"]
    g pr c
  show ?thesis by simp
qed

text \<open>
  The claim as it is written fails when standard output cannot encode the progress
  line (a console that has the rule of the banner and not the mark of the progress
  line, or an ASCII console): with an absent file as the only candidate, no warning is
  printed and the run ends with the exception of \<open>print\<close>, exit status 1.
\<close>

theorem main_skips_absent_file_counterexample:
  "fs \<lparr>environ = [''CHANGED_FILES'' \<mapsto> ''gone.snowsql''], fs = Map.empty, console = [], stdout_encodes = (\<lambda>m. m = Banner 1)\<rparr> ''gone.snowsql'' = None \<and>
   candidate_files \<lparr>environ = [''CHANGED_FILES'' \<mapsto> ''gone.snowsql''], fs = Map.empty, console = [], stdout_encodes = (\<lambda>m. m = Banner 1)\<rparr> = [''gone.snowsql''] \<and>
   snd (main (\<lambda>args t d. RunError) (\<lambda>d suf. ''/tmp/tmp1'' @ suf) (\<lambda>s. Written) \<lparr>environ = [''CHANGED_FILES'' \<mapsto> ''gone.snowsql''], fs = Map.empty, console = [], stdout_encodes = (\<lambda>m. m = Banner 1)\<rparr>) = Uncaught PrintError \<and>
   console (fst (main (\<lambda>args t d. RunError) (\<lambda>d suf. ''/tmp/tmp1'' @ suf) (\<lambda>s. Written) \<lparr>environ = [''CHANGED_FILES'' \<mapsto> ''gone.snowsql''], fs = Map.empty, console = [], stdout_encodes = (\<lambda>m. m = Banner 1)\<rparr>)) = [Banner 1] \<and>
   exit_status (snd (main (\<lambda>args t d. RunError) (\<lambda>d suf. ''/tmp/tmp1'' @ suf) (\<lambda>s. Written) \<lparr>environ = [''CHANGED_FILES'' \<mapsto> ''gone.snowsql''], fs = Map.empty, console = [], stdout_encodes = (\<lambda>m. m = Banner 1)\<rparr>)) = 1 \<and>
   snd (main (\<lambda>args t d. RunError) (\<lambda>d suf. ''/tmp/tmp1'' @ suf) (\<lambda>s. Written) \<lparr>environ = [''CHANGED_FILES'' \<mapsto> ''gone.snowsql''], fs = Map.empty, console = [], stdout_encodes = (\<lambda>m. False)\<rparr>) = Uncaught PrintError \<and>
   exit_status (snd (main (\<lambda>args t d. RunError) (\<lambda>d suf. ''/tmp/tmp1'' @ suf) (\<lambda>s. Written) \<lparr>environ = [''CHANGED_FILES'' \<mapsto> ''gone.snowsql''], fs = Map.empty, console = [], stdout_encodes = (\<lambda>m. False)\<rparr>)) = 1"
  by (simp add: candidate_files_def py_split_def py_strip_def py_isspace_def suffix_to_prefix
      main_def py_print_def Let_def)

end
